theory Spec2Isabelle
  imports Main
begin

section \<open>Python values\<close>

text \<open>
  A Python \<open>str\<close> is a sequence of Unicode code points, and \<open>len\<close> counts code points:
  a string is a list of code points, each a natural number. \<open>ustr\<close> turns an ASCII
  literal of the source into such a string.
\<close>

type_synonym pystr = "nat list"

definition ustr :: "string \<Rightarrow> pystr" where
  "ustr s = map of_char s"

text \<open>
  The values the two tool functions receive and return: \<open>None\<close>, booleans, integers,
  strings, lists and dictionaries with string keys (what a decoded JSON argument holds),
  and \<open>PObject tn\<close>, an instance of any other class \<open>tn\<close> with the default behaviour of
  \<open>object\<close> (truthy, no \<open>strip\<close> or \<open>get\<close> attribute, not JSON serialisable). A
  dictionary keeps its insertion order: it is an association list, whose keys are
  distinct in a well-formed value. Floating-point numbers are not modelled.
\<close>

datatype pyval =
    PNone
  | PBool bool
  | PInt int
  | PStr pystr
  | PList "pyval list"
  | PDict "(pystr \<times> pyval) list"
  | PObject pystr

text \<open>
  An exception, an instance of \<open>Exception\<close> as \<open>except Exception\<close> catches it, is
  its class name and the text \<open>str(e)\<close>. An interrupt of the process
  (\<open>KeyboardInterrupt\<close>, \<open>SystemExit\<close>) is not modelled.
\<close>

datatype pyexc = PyExc (exc_class: pystr) (exc_str: pystr)

definition ebind :: "pyexc + 'a \<Rightarrow> ('a \<Rightarrow> pyexc + 'b) \<Rightarrow> pyexc + 'b" where
  "ebind m f = (case m of Inl e \<Rightarrow> Inl e | Inr x \<Rightarrow> f x)"

fun type_name :: "pyval \<Rightarrow> pystr" where
  "type_name PNone = ustr ''NoneType''"
| "type_name (PBool b) = ustr ''bool''"
| "type_name (PInt i) = ustr ''int''"
| "type_name (PStr s) = ustr ''str''"
| "type_name (PList xs) = ustr ''list''"
| "type_name (PDict kvs) = ustr ''dict''"
| "type_name (PObject tn) = tn"

text \<open>\<open>bool(x)\<close>, as \<open>not x\<close> and \<open>if x\<close> evaluate it.\<close>

fun truthy :: "pyval \<Rightarrow> bool" where
  "truthy PNone = False"
| "truthy (PBool b) = b"
| "truthy (PInt i) = (i \<noteq> 0)"
| "truthy (PStr s) = (s \<noteq> [])"
| "truthy (PList xs) = (xs \<noteq> [])"
| "truthy (PDict kvs) = (kvs \<noteq> [])"
| "truthy (PObject tn) = True"

definition no_attribute :: "pyval \<Rightarrow> string \<Rightarrow> pyexc" where
  "no_attribute x attr =
     PyExc (ustr ''AttributeError'')
       ([39] @ type_name x @ [39] @ ustr '' object has no attribute '' @ [39] @ ustr attr
          @ [39])"

subsection \<open>Strings\<close>

text \<open>
  \<open>str.isspace\<close> on one code point: the code points CPython's
  \<open>_PyUnicode_IsWhitespace\<close> accepts.
\<close>

definition isspace :: "nat \<Rightarrow> bool" where
  "isspace c \<longleftrightarrow>
     (0x09 \<le> c \<and> c \<le> 0x0D) \<or> (0x1C \<le> c \<and> c \<le> 0x20) \<or> c = 0x85 \<or> c = 0xA0
     \<or> c = 0x1680 \<or> (0x2000 \<le> c \<and> c \<le> 0x200A) \<or> c = 0x2028 \<or> c = 0x2029
     \<or> c = 0x202F \<or> c = 0x205F \<or> c = 0x3000"

text \<open>\<open>s.strip()\<close>: leading and trailing whitespace removed.\<close>

definition strip :: "pystr \<Rightarrow> pystr" where
  "strip s = rev (dropWhile isspace (rev (dropWhile isspace s)))"

text \<open>\<open>x.strip()\<close> on any value: only a \<open>str\<close> has the method.\<close>

fun py_strip :: "pyval \<Rightarrow> pyexc + pystr" where
  "py_strip (PStr s) = Inr (strip s)"
| "py_strip x = Inl (no_attribute x ''strip'')"

subsection \<open>Dictionaries\<close>

text \<open>\<open>d.get(k)\<close> and \<open>d[k] = v\<close> on an insertion-ordered dictionary.\<close>

definition dict_get :: "(pystr \<times> pyval) list \<Rightarrow> pystr \<Rightarrow> pyval option" where
  "dict_get d k = map_of d k"

fun dict_set :: "(pystr \<times> pyval) list \<Rightarrow> pystr \<Rightarrow> pyval \<Rightarrow> (pystr \<times> pyval) list" where
  "dict_set [] k v = [(k, v)]"
| "dict_set ((k', v') # d) k v = (if k' = k then (k, v) # d else (k', v') # dict_set d k v)"

definition dict_keys :: "(pystr \<times> pyval) list \<Rightarrow> pystr list" where
  "dict_keys d = map fst d"

text \<open>Reading a key of a value that is a dictionary (of a result, in the theorems).\<close>

fun py_get :: "pyval \<Rightarrow> pystr \<Rightarrow> pyval option" where
  "py_get (PDict d) k = dict_get d k"
| "py_get _ k = None"

section \<open>The clock\<close>

text \<open>
  \<open>datetime.datetime.now()\<close> returns a naive local date and time. A reading of the
  clock is an input of the model.
\<close>

record datetime =
  year :: nat
  month :: nat
  day :: nat
  hour :: nat
  minute :: nat
  second :: nat
  microsecond :: nat

definition leap_year :: "nat \<Rightarrow> bool" where
  "leap_year y \<longleftrightarrow> y mod 4 = 0 \<and> (y mod 100 \<noteq> 0 \<or> y mod 400 = 0)"

definition days_in_month :: "nat \<Rightarrow> nat \<Rightarrow> nat" where
  "days_in_month y m =
     (if m = 2 then (if leap_year y then 29 else 28)
      else if m = 4 \<or> m = 6 \<or> m = 9 \<or> m = 11 then 30 else 31)"

text \<open>The values a Python \<open>datetime\<close> can hold (\<open>MINYEAR = 1\<close>, \<open>MAXYEAR = 9999\<close>).\<close>

definition valid_datetime :: "datetime \<Rightarrow> bool" where
  "valid_datetime t \<longleftrightarrow>
     1 \<le> year t \<and> year t \<le> 9999 \<and> 1 \<le> month t \<and> month t \<le> 12
     \<and> 1 \<le> day t \<and> day t \<le> days_in_month (year t) (month t)
     \<and> hour t < 24 \<and> minute t < 60 \<and> second t < 60 \<and> microsecond t < 1000000"

text \<open>Decimal digits, and \<open>%0wd\<close>: at least \<open>w\<close> digits, padded with zeros.\<close>

fun digits :: "nat \<Rightarrow> pystr" where
  "digits n = (if n < 10 then [48 + n] else digits (n div 10) @ [48 + n mod 10])"

declare digits.simps [simp del]

definition zfill :: "nat \<Rightarrow> nat \<Rightarrow> pystr" where
  "zfill w n = replicate (w - length (digits n)) 48 @ digits n"

text \<open>
  \<open>t.isoformat()\<close> of a naive datetime: \<open>YYYY-MM-DDTHH:MM:SS\<close>, followed by
  \<open>.ffffff\<close> when the microsecond is not zero.
\<close>

definition isoformat :: "datetime \<Rightarrow> pystr" where
  "isoformat t =
     zfill 4 (year t) @ ustr ''-'' @ zfill 2 (month t) @ ustr ''-'' @ zfill 2 (day t)
     @ ustr ''T'' @ zfill 2 (hour t) @ ustr '':'' @ zfill 2 (minute t) @ ustr '':''
     @ zfill 2 (second t)
     @ (if microsecond t \<noteq> 0 then ustr ''.'' @ zfill 6 (microsecond t) else [])"

text \<open>
  \<open>t.strftime("%Y%m%d_%H%M%S")\<close>. The C library pads \<open>%Y\<close> differently below the
  year 1000; the formats agree from 1000 on, which every reading of a running clock is.
\<close>

definition strftime_stamp :: "datetime \<Rightarrow> pystr" where
  "strftime_stamp t =
     zfill 4 (year t) @ zfill 2 (month t) @ zfill 2 (day t) @ ustr ''_''
     @ zfill 2 (hour t) @ zfill 2 (minute t) @ zfill 2 (second t)"

text \<open>How Python compares two naive datetimes: field by field, the year first.\<close>

definition datetime_key :: "datetime \<Rightarrow> nat list" where
  "datetime_key t = [year t, month t, day t, hour t, minute t, second t, microsecond t]"

fun lex_le :: "nat list \<Rightarrow> nat list \<Rightarrow> bool" where
  "lex_le [] ys = True"
| "lex_le (x # xs) [] = False"
| "lex_le (x # xs) (y # ys) = (x < y \<or> (x = y \<and> lex_le xs ys))"

definition datetime_le :: "datetime \<Rightarrow> datetime \<Rightarrow> bool" where
  "datetime_le a b = lex_le (datetime_key a) (datetime_key b)"

subsection \<open>Reading a timestamp back\<close>

text \<open>
  What the specification calls parseable as ISO-8601: a reader of the extended format
  \<open>YYYY-MM-DDTHH:MM:SS[.ffffff]\<close> that accepts the fields of a valid datetime only.
\<close>

fun digit_value :: "nat \<Rightarrow> nat option" where
  "digit_value c = (if 48 \<le> c \<and> c \<le> 57 then Some (c - 48) else None)"

fun read_digits :: "nat \<Rightarrow> pystr \<Rightarrow> nat option" where
  "read_digits acc [] = Some acc"
| "read_digits acc (c # cs) =
     (case digit_value c of None \<Rightarrow> None | Some d \<Rightarrow> read_digits (10 * acc + d) cs)"

definition read_field :: "nat \<Rightarrow> pystr \<Rightarrow> (nat \<times> pystr) option" where
  "read_field w s =
     (if length s < w then None
      else map_option (\<lambda>n. (n, drop w s)) (read_digits 0 (take w s)))"

fun expect :: "nat \<Rightarrow> pystr \<Rightarrow> pystr option" where
  "expect c [] = None"
| "expect c (x # xs) = (if x = c then Some xs else None)"

definition read_fraction :: "pystr \<Rightarrow> nat option" where
  "read_fraction s =
     (if s = [] then Some 0
      else Option.bind (expect 46 s) (\<lambda>s.
           Option.bind (read_field 6 s) (\<lambda>(us, s). if s = [] then Some us else None)))"

definition parse_iso8601 :: "pystr \<Rightarrow> datetime option" where
  "parse_iso8601 s =
     Option.bind (read_field 4 s) (\<lambda>(y, s).
     Option.bind (expect 45 s) (\<lambda>s.
     Option.bind (read_field 2 s) (\<lambda>(mo, s).
     Option.bind (expect 45 s) (\<lambda>s.
     Option.bind (read_field 2 s) (\<lambda>(d, s).
     Option.bind (expect 84 s) (\<lambda>s.
     Option.bind (read_field 2 s) (\<lambda>(h, s).
     Option.bind (expect 58 s) (\<lambda>s.
     Option.bind (read_field 2 s) (\<lambda>(mi, s).
     Option.bind (expect 58 s) (\<lambda>s.
     Option.bind (read_field 2 s) (\<lambda>(se, s).
     Option.bind (read_fraction s) (\<lambda>us.
       let t = \<lparr>year = y, month = mo, day = d, hour = h, minute = mi, second = se,
                microsecond = us\<rparr>
       in if valid_datetime t then Some t else None))))))))))))"

section \<open>The field validator\<close>

text \<open>
  One statement \<open>if not x or len(x.strip()) < m: errors.append(msg)\<close>: \<open>or\<close> does not
  evaluate its right operand when the left one is true.
\<close>

definition check_field :: "pyval \<Rightarrow> nat \<Rightarrow> string \<Rightarrow> pystr list \<Rightarrow> pyexc + pystr list" where
  "check_field x m msg errors =
     (if \<not> truthy x then Inr (errors @ [ustr msg])
      else ebind (py_strip x) (\<lambda>t.
        if length t < m then Inr (errors @ [ustr msg]) else Inr errors))"

text \<open>
  \<open>validate_basic_info(name, role, department, timeline)\<close>, with the reading \<open>now\<close> of
  the clock that the success branch takes. The diagnostic \<open>print\<close> is not modelled.
\<close>

definition validate_basic_info ::
  "datetime \<Rightarrow> pyval \<Rightarrow> pyval \<Rightarrow> pyval \<Rightarrow> pyval \<Rightarrow> pyexc + pyval" where
  "validate_basic_info now name role department timeline =
     ebind (check_field name 2 ''Name must be at least 2 characters long'' []) (\<lambda>errors.
     ebind (check_field role 2 ''Role must be specified'' errors) (\<lambda>errors.
     ebind (check_field department 2 ''Department must be specified'' errors) (\<lambda>errors.
     ebind (check_field timeline 3 ''Timeline must be specified'' errors) (\<lambda>errors.
       if errors \<noteq> [] then
         Inr (PDict [(ustr ''valid'', PBool False),
                     (ustr ''errors'', PList (map PStr errors))])
       else
         ebind (py_strip name) (\<lambda>n.
         ebind (py_strip role) (\<lambda>r.
         ebind (py_strip department) (\<lambda>d.
         ebind (py_strip timeline) (\<lambda>t.
           Inr (PDict [(ustr ''valid'', PBool True),
                       (ustr ''data'', PDict [
                          (ustr ''name'', PStr n),
                          (ustr ''role'', PStr r),
                          (ustr ''department'', PStr d),
                          (ustr ''timeline'', PStr t),
                          (ustr ''collected_at'', PStr (isoformat now))])])))))))))"

subsection \<open>The rule of the specification\<close>

text \<open>
  The specification's rule, in its words: a field is invalid if it is empty or
  whitespace-only, or, after trimming, shorter than its minimum.
\<close>

definition field_invalid :: "nat \<Rightarrow> pystr \<Rightarrow> bool" where
  "field_invalid m s \<longleftrightarrow> s = [] \<or> list_all isspace s \<or> length (strip s) < m"

text \<open>One message per violated field, in the order name, role, department, timeline.\<close>

definition expected_errors :: "pystr \<Rightarrow> pystr \<Rightarrow> pystr \<Rightarrow> pystr \<Rightarrow> pystr list" where
  "expected_errors name role department timeline =
     (if field_invalid 2 name then [ustr ''Name must be at least 2 characters long''] else [])
     @ (if field_invalid 2 role then [ustr ''Role must be specified''] else [])
     @ (if field_invalid 2 department then [ustr ''Department must be specified''] else [])
     @ (if field_invalid 3 timeline then [ustr ''Timeline must be specified''] else [])"

subsection \<open>Reading a result\<close>

text \<open>The field \<open>k\<close> of the \<open>data\<close> record of a result, and its timestamp read back.\<close>

definition data_field :: "pyval \<Rightarrow> pystr \<Rightarrow> pyval option" where
  "data_field r k = Option.bind (py_get r (ustr ''data'')) (\<lambda>d. py_get d k)"

definition result_timestamp :: "pyval \<Rightarrow> datetime option" where
  "result_timestamp r =
     (case data_field r (ustr ''collected_at'') of
        Some (PStr s) \<Rightarrow> parse_iso8601 s
      | _ \<Rightarrow> None)"

text \<open>
  The timestamp of a second result is not earlier than that of a first one (results
  without a timestamp, those of a failed validation, have nothing to compare).
\<close>

definition timestamp_non_decreasing :: "pyval \<Rightarrow> pyval \<Rightarrow> bool" where
  "timestamp_non_decreasing r1 r2 =
     (case (result_timestamp r1, result_timestamp r2) of
        (Some a, Some b) \<Rightarrow> datetime_le a b
      | (None, None) \<Rightarrow> True
      | _ \<Rightarrow> False)"

section \<open>UTF-8\<close>

text \<open>
  What the strict UTF-8 codec of the text stream accepts: the Unicode scalar values, that
  is every code point but the surrogates.
\<close>

definition utf8_encodable :: "nat \<Rightarrow> bool" where
  "utf8_encodable c \<longleftrightarrow> c < 0xD800 \<or> (0xE000 \<le> c \<and> c \<le> 0x10FFFF)"

definition utf8_char :: "nat \<Rightarrow> nat list" where
  "utf8_char c =
     (if c < 0x80 then [c]
      else if c < 0x800 then [0xC0 + c div 0x40, 0x80 + c mod 0x40]
      else if c < 0x10000 then
        [0xE0 + c div 0x1000, 0x80 + c div 0x40 mod 0x40, 0x80 + c mod 0x40]
      else
        [0xF0 + c div 0x40000, 0x80 + c div 0x1000 mod 0x40, 0x80 + c div 0x40 mod 0x40,
         0x80 + c mod 0x40])"

definition utf8_encode :: "pystr \<Rightarrow> nat list" where
  "utf8_encode s = concat (map utf8_char s)"

section \<open>The JSON encoder\<close>

definition hex_digit :: "nat \<Rightarrow> nat" where
  "hex_digit d = (if d < 10 then 48 + d else 87 + d)"

text \<open>
  \<open>ESCAPE_DCT\<close> of \<open>json.encoder\<close>, as \<open>ensure_ascii=False\<close> uses it: the quote, the
  backslash and the control characters below U+0020 are escaped, every other code point
  is written as it is.
\<close>

definition json_escape_char :: "nat \<Rightarrow> pystr" where
  "json_escape_char c =
     (if c = 34 then ustr [CHR 0x5C, CHR 0x22]
      else if c = 92 then ustr [CHR 0x5C, CHR 0x5C]
      else if c = 8 then ustr [CHR 0x5C, CHR ''b'']
      else if c = 12 then ustr [CHR 0x5C, CHR ''f'']
      else if c = 10 then ustr [CHR 0x5C, CHR ''n'']
      else if c = 13 then ustr [CHR 0x5C, CHR ''r'']
      else if c = 9 then ustr [CHR 0x5C, CHR ''t'']
      else if c < 32 then
        ustr [CHR 0x5C, CHR ''u'', CHR ''0'', CHR ''0''] @ [hex_digit (c div 16), hex_digit (c mod 16)]
      else [c])"

definition encode_basestring :: "pystr \<Rightarrow> pystr" where
  "encode_basestring s = [34] @ concat (map json_escape_char s) @ [34]"

definition show_int :: "int \<Rightarrow> pystr" where
  "show_int i = (if i < 0 then 45 # digits (nat (- i)) else digits (nat i))"

text \<open>\<open>'\n' + ' ' * (2 * level)\<close>: the line break of \<open>indent=2\<close>.\<close>

definition newline_indent :: "nat \<Rightarrow> pystr" where
  "newline_indent level = 10 # replicate (2 * level) 32"

definition not_serializable :: "pystr \<Rightarrow> pyexc" where
  "not_serializable tn =
     PyExc (ustr ''TypeError'')
       (ustr ''Object of type '' @ tn @ ustr '' is not JSON serializable'')"

text \<open>
  A string chunk on its way into the text stream of the file: the stream encodes each
  chunk as it is written, and the strict codec raises on a surrogate. The wording of
  that exception is the codec's, a parameter.
\<close>

definition emit_str :: "(pystr \<Rightarrow> pystr) \<Rightarrow> pystr \<Rightarrow> pyexc + pystr" where
  "emit_str codec s =
     (if list_all utf8_encodable s then Inr (encode_basestring s)
      else Inl (PyExc (ustr ''UnicodeEncodeError'') (codec s)))"

text \<open>
  The text \<open>json.dump(obj, f, indent=2, ensure_ascii=False)\<close> writes, at nesting level
  \<open>level\<close>, or the first exception in document order.
\<close>

fun json_value :: "(pystr \<Rightarrow> pystr) \<Rightarrow> nat \<Rightarrow> pyval \<Rightarrow> pyexc + pystr"
  and json_items :: "(pystr \<Rightarrow> pystr) \<Rightarrow> nat \<Rightarrow> pyval list \<Rightarrow> pyexc + pystr"
  and json_pairs :: "(pystr \<Rightarrow> pystr) \<Rightarrow> nat \<Rightarrow> (pystr \<times> pyval) list \<Rightarrow> pyexc + pystr"
where
  "json_value codec level PNone = Inr (ustr ''null'')"
| "json_value codec level (PBool b) = Inr (if b then ustr ''true'' else ustr ''false'')"
| "json_value codec level (PInt i) = Inr (show_int i)"
| "json_value codec level (PStr s) = emit_str codec s"
| "json_value codec level (PList []) = Inr (ustr ''[]'')"
| "json_value codec level (PList (x # xs)) =
     ebind (json_items codec (Suc level) (x # xs)) (\<lambda>body.
       Inr (ustr ''['' @ newline_indent (Suc level) @ body @ newline_indent level @ ustr '']''))"
| "json_value codec level (PDict []) = Inr (ustr ''{}'')"
| "json_value codec level (PDict (kv # kvs)) =
     ebind (json_pairs codec (Suc level) (kv # kvs)) (\<lambda>body.
       Inr (ustr ''{'' @ newline_indent (Suc level) @ body @ newline_indent level @ ustr ''}''))"
| "json_value codec level (PObject tn) = Inl (not_serializable tn)"
| "json_items codec level [] = Inr []"
| "json_items codec level [x] = json_value codec level x"
| "json_items codec level (x # y # ys) =
     ebind (json_value codec level x) (\<lambda>a.
     ebind (json_items codec level (y # ys)) (\<lambda>b.
       Inr (a @ ustr '','' @ newline_indent level @ b)))"
| "json_pairs codec level [] = Inr []"
| "json_pairs codec level [(k, v)] =
     ebind (emit_str codec k) (\<lambda>a.
     ebind (json_value codec level v) (\<lambda>b.
       Inr (a @ ustr '': '' @ b)))"
| "json_pairs codec level ((k, v) # kv # kvs) =
     ebind (emit_str codec k) (\<lambda>a.
     ebind (json_value codec level v) (\<lambda>b.
     ebind (json_pairs codec level (kv # kvs)) (\<lambda>c.
       Inr (a @ ustr '': '' @ b @ ustr '','' @ newline_indent level @ c))))"

section \<open>The request persister\<close>

text \<open>
  What one call of \<open>save_analytics_request\<close> takes from outside the program: the two
  readings of the clock (for the file name, then for the metadata), \<open>str()\<close> of a value
  that is not a string, the text-generation call (\<open>prompt_call\<close>, which returns
  \<open>response.text\<close>, a string or \<open>None\<close>, or raises), whether the operating system
  refuses to open a file for writing, and the wording of the codec's exception. Once
  the file is open the operating system is taken to accept what is written.
\<close>

record env =
  now_filename :: datetime
  now_created :: datetime
  py_repr :: "pyval \<Rightarrow> pystr"
  prompt_call :: "pystr \<Rightarrow> pyexc + pystr option"
  open_error :: "pystr \<Rightarrow> pyexc option"
  codec_message :: "pystr \<Rightarrow> pystr"

text \<open>
  A file holds the bytes of a finished write, or it was created or truncated by a write
  that raised before its end: then it holds a proper prefix of a document.
\<close>

datatype file_content = Complete "nat list" | Incomplete

type_synonym filesystem = "pystr \<Rightarrow> file_content option"

text \<open>\<open>str(x)\<close>, and \<open>{x}\<close> in an f-string.\<close>

definition py_str :: "env \<Rightarrow> pyval \<Rightarrow> pystr" where
  "py_str env x = (case x of PStr s \<Rightarrow> s | _ \<Rightarrow> py_repr env x)"

definition summary_prompt :: "pystr \<Rightarrow> pystr" where
  "summary_prompt request_text =
     [10] @ ustr ''        Please provide a clear and insightful summary of this analytics request:''
     @ [10] @ ustr ''        ''
     @ [10] @ ustr ''        Requester information:''
     @ [10] @ ustr ''        '' @ request_text
     @ [10] @ ustr ''        ''
     @ [10] @ ustr ''        Limit to 1 concise paragraph With three key bullet pointsAnd if possible a level of effort statement.''
     @ [10] @ ustr ''        ''"

definition summarize_analytics_request :: "env \<Rightarrow> pyval \<Rightarrow> pyval" where
  "summarize_analytics_request env request_data =
     (case prompt_call env (summary_prompt (py_str env request_data)) of
        Inr None \<Rightarrow> PNone
      | Inr (Some summary) \<Rightarrow> PStr summary
      | Inl e \<Rightarrow>
          PDict [(ustr ''status'', PStr (ustr ''error'')),
                 (ustr ''message'', PStr (ustr ''Failed to generate summary: '' @ exc_str e))])"

text \<open>\<open>x.get(k, default)\<close> on any value: only a dictionary has the method.\<close>

fun py_get_default :: "pyval \<Rightarrow> pystr \<Rightarrow> pyval \<Rightarrow> pyexc + pyval" where
  "py_get_default (PDict d) k dflt = Inr (case dict_get d k of Some v \<Rightarrow> v | None \<Rightarrow> dflt)"
| "py_get_default x k dflt = Inl (no_attribute x ''get'')"

text \<open>
  \<open>with open(filename, 'w', encoding='utf-8') as f: json.dump(...)\<close>. Opening creates
  or truncates the file; an exception of the encoder leaves it incomplete.
\<close>

definition write_json :: "env \<Rightarrow> filesystem \<Rightarrow> pystr \<Rightarrow> pyval \<Rightarrow> filesystem \<times> (pyexc + unit)" where
  "write_json env fs filename doc =
     (case open_error env filename of
        Some e \<Rightarrow> (fs, Inl e)
      | None \<Rightarrow>
          (case json_value (codec_message env) 0 doc of
             Inl e \<Rightarrow> (fs(filename \<mapsto> Incomplete), Inl e)
           | Inr text \<Rightarrow> (fs(filename \<mapsto> Complete (utf8_encode text)), Inr ())))"

definition save_error :: "pyexc \<Rightarrow> pyval" where
  "save_error e =
     PDict [(ustr ''status'', PStr (ustr ''error'')),
            (ustr ''message'', PStr (ustr ''Failed to save request: '' @ exc_str e))]"

text \<open>The dictionary of the \<open>return\<close> statement of the success path.\<close>

definition save_success :: "env \<Rightarrow> pystr \<Rightarrow> (pystr \<times> pyval) list \<Rightarrow> pyexc + pyval" where
  "save_success env filename request_data =
     ebind (py_get_default (PDict request_data) (ustr ''request_type'') (PStr (ustr ''unknown'')))
       (\<lambda>request_type.
     ebind (py_get_default (PDict request_data) (ustr ''basic_info'') (PDict [])) (\<lambda>basic_info.
     ebind (py_get_default basic_info (ustr ''name'') (PStr (ustr ''unknown''))) (\<lambda>requester.
       Inr (PDict [
         (ustr ''status'', PStr (ustr ''success'')),
         (ustr ''message'',
            PStr (ustr ''Analytics request saved successfully to '' @ filename)),
         (ustr ''file_path'', PStr filename),
         (ustr ''summary'',
            PStr (ustr ''Request type: '' @ py_str env request_type
                  @ ustr '', Requester: '' @ py_str env requester))]))))"

text \<open>
  The file name of a call: \<open>f"analytics_request_{timestamp}.json"\<close> with
  \<open>timestamp = datetime.datetime.now().strftime("%Y%m%d_%H%M%S")\<close>.
\<close>

definition request_filename :: "datetime \<Rightarrow> pystr" where
  "request_filename t = ustr ''analytics_request_'' @ strftime_stamp t @ ustr ''.json''"

text \<open>
  The two assignments \<open>request_data["request_summary"] = summary\<close> and
  \<open>request_data["metadata"] = {...}\<close>, on the dictionary of the caller.
\<close>

definition add_summary_and_metadata ::
  "env \<Rightarrow> (pystr \<times> pyval) list \<Rightarrow> (pystr \<times> pyval) list" where
  "add_summary_and_metadata env request_data =
     (let summary = summarize_analytics_request env (PDict request_data);
          request_data = dict_set request_data (ustr ''request_summary'') summary
      in dict_set request_data (ustr ''metadata'')
           (PDict [(ustr ''created_at'', PStr (isoformat (now_created env))),
                   (ustr ''status'', PStr (ustr ''pending_review''))]))"

text \<open>
  The body of the \<open>try\<close> statement of \<open>save_analytics_request\<close>: the dictionary of
  the caller after it (it is updated in place), the file system after it, and the
  value it returns or the exception it raises. The \<open>print\<close> statements are not
  modelled.
\<close>

definition save_try ::
  "env \<Rightarrow> filesystem \<Rightarrow> (pystr \<times> pyval) list
     \<Rightarrow> (pystr \<times> pyval) list \<times> filesystem \<times> (pyexc + pyval)" where
  "save_try env fs request_data =
     (let filename = request_filename (now_filename env);
          request_data = add_summary_and_metadata env request_data
      in case write_json env fs filename (PDict request_data) of
           (fs', Inl e) \<Rightarrow> (request_data, fs', Inl e)
         | (fs', Inr u) \<Rightarrow> (request_data, fs', save_success env filename request_data))"

text \<open>
  \<open>save_analytics_request(request_data)\<close>: the \<open>try\<close> statement with its handler
  \<open>except Exception as e\<close>.
\<close>

definition save_analytics_request ::
  "env \<Rightarrow> filesystem \<Rightarrow> (pystr \<times> pyval) list
     \<Rightarrow> (pystr \<times> pyval) list \<times> filesystem \<times> pyval" where
  "save_analytics_request env fs request_data =
     (case save_try env fs request_data of
        (request_data', fs', Inl e) \<Rightarrow> (request_data', fs', save_error e)
      | (request_data', fs', Inr result) \<Rightarrow> (request_data', fs', result))"

section \<open>Reading a file back\<close>

text \<open>
  What the specification calls re-reading the file as JSON: a strict UTF-8 decoder and a
  reader of JSON texts. They are not part of the program; they state what the bytes of
  a written file denote.
\<close>

definition continuation :: "nat \<Rightarrow> bool" where
  "continuation b \<longleftrightarrow> 0x80 \<le> b \<and> b < 0xC0"

fun utf8_decode :: "nat list \<Rightarrow> pystr option" where
  "utf8_decode [] = Some []"
| "utf8_decode (b0 # bs) =
     (if b0 < 0x80 then map_option ((#) b0) (utf8_decode bs)
      else if 0xC0 \<le> b0 \<and> b0 < 0xE0 then
        (case bs of
           b1 # r \<Rightarrow>
             (let c = (b0 - 0xC0) * 0x40 + (b1 - 0x80)
              in if continuation b1 \<and> 0x80 \<le> c
                 then map_option ((#) c) (utf8_decode r) else None)
         | _ \<Rightarrow> None)
      else if 0xE0 \<le> b0 \<and> b0 < 0xF0 then
        (case bs of
           b1 # b2 # r \<Rightarrow>
             (let c = (b0 - 0xE0) * 0x1000 + (b1 - 0x80) * 0x40 + (b2 - 0x80)
              in if continuation b1 \<and> continuation b2 \<and> 0x800 \<le> c \<and> utf8_encodable c
                 then map_option ((#) c) (utf8_decode r) else None)
         | _ \<Rightarrow> None)
      else if 0xF0 \<le> b0 \<and> b0 < 0xF8 then
        (case bs of
           b1 # b2 # b3 # r \<Rightarrow>
             (let c = (b0 - 0xF0) * 0x40000 + (b1 - 0x80) * 0x1000 + (b2 - 0x80) * 0x40
                      + (b3 - 0x80)
              in if continuation b1 \<and> continuation b2 \<and> continuation b3
                    \<and> 0x10000 \<le> c \<and> utf8_encodable c
                 then map_option ((#) c) (utf8_decode r) else None)
         | _ \<Rightarrow> None)
      else None)"

text \<open>
  The reader of JSON texts. It reads what \<open>json.loads\<close> reads, except that it
  does not read a number with a fraction or an exponent (floating-point numbers are
  not modelled), nor the constants \<open>NaN\<close> and \<open>Infinity\<close>, nor an escaped
  surrogate. Its recursion is bounded by the length of the text.
\<close>

definition json_space :: "nat \<Rightarrow> bool" where
  "json_space c \<longleftrightarrow> c = 32 \<or> c = 9 \<or> c = 10 \<or> c = 13"

definition skip_ws :: "pystr \<Rightarrow> pystr" where
  "skip_ws s = dropWhile json_space s"

definition hex_value :: "nat \<Rightarrow> nat option" where
  "hex_value c =
     (if 48 \<le> c \<and> c \<le> 57 then Some (c - 48)
      else if 97 \<le> c \<and> c \<le> 102 then Some (c - 87)
      else if 65 \<le> c \<and> c \<le> 70 then Some (c - 55)
      else None)"

definition hex4 :: "nat \<Rightarrow> nat \<Rightarrow> nat \<Rightarrow> nat \<Rightarrow> nat option" where
  "hex4 a b c d =
     (case (hex_value a, hex_value b, hex_value c, hex_value d) of
        (Some w, Some x, Some y, Some z) \<Rightarrow>
          (let u = ((w * 16 + x) * 16 + y) * 16 + z
           in if 0xD800 \<le> u \<and> u < 0xE000 then None else Some u)
      | _ \<Rightarrow> None)"

text \<open>The character a backslash and \<open>e\<close> stand for.\<close>

definition unescape :: "nat \<Rightarrow> nat option" where
  "unescape e =
     (if e = 34 then Some 34
      else if e = 92 then Some 92
      else if e = 47 then Some 47
      else if e = 98 then Some 8
      else if e = 102 then Some 12
      else if e = 110 then Some 10
      else if e = 114 then Some 13
      else if e = 116 then Some 9
      else None)"

text \<open>The rest of a string after its opening quote; \<open>acc\<close> holds what was read, reversed.\<close>

fun read_string :: "pystr \<Rightarrow> pystr \<Rightarrow> (pystr \<times> pystr) option" where
  "read_string [] acc = None"
| "read_string (c # cs) acc =
     (if c = 34 then Some (rev acc, cs)
      else if c = 92 then
        (case cs of
           [] \<Rightarrow> None
         | e # r \<Rightarrow>
             (if e = 117 then
                (case r of
                   h1 # h2 # h3 # h4 # r' \<Rightarrow>
                     (case hex4 h1 h2 h3 h4 of
                        None \<Rightarrow> None
                      | Some u \<Rightarrow> read_string r' (u # acc))
                 | _ \<Rightarrow> None)
              else
                (case unescape e of
                   None \<Rightarrow> None
                 | Some u \<Rightarrow> read_string r (u # acc))))
      else if c < 32 then None
      else read_string cs (c # acc))"

definition is_digit :: "nat \<Rightarrow> bool" where
  "is_digit c \<longleftrightarrow> 48 \<le> c \<and> c \<le> 57"

text \<open>An integer: an optional minus sign, then \<open>0\<close> or digits that do not start with \<open>0\<close>.\<close>

definition read_number :: "pystr \<Rightarrow> (pyval \<times> pystr) option" where
  "read_number s =
     (let negative = (s \<noteq> [] \<and> hd s = 45);
          r = (if negative then tl s else s);
          ds = takeWhile is_digit r;
          rest = dropWhile is_digit r
      in if ds = [] \<or> (1 < length ds \<and> hd ds = 48) then None
         else if rest \<noteq> [] \<and> (hd rest = 46 \<or> hd rest = 101 \<or> hd rest = 69) then None
         else map_option
                (\<lambda>n. (PInt (if negative then - int n else int n), rest))
                (read_digits 0 ds))"

text \<open>\<open>dict(pairs)\<close>: a key read twice keeps its first place and its last value.\<close>

definition dict_of_pairs :: "(pystr \<times> pyval) list \<Rightarrow> (pystr \<times> pyval) list" where
  "dict_of_pairs kvs = foldl (\<lambda>d (k, v). dict_set d k v) [] kvs"

definition expect_word :: "pystr \<Rightarrow> pyval \<Rightarrow> pystr \<Rightarrow> (pyval \<times> pystr) option" where
  "expect_word w v s =
     (if take (length w) s = w then Some (v, drop (length w) s) else None)"

fun read_value :: "nat \<Rightarrow> pystr \<Rightarrow> (pyval \<times> pystr) option"
  and read_items :: "nat \<Rightarrow> pystr \<Rightarrow> (pyval list \<times> pystr) option"
  and read_pairs :: "nat \<Rightarrow> pystr \<Rightarrow> ((pystr \<times> pyval) list \<times> pystr) option"
where
  "read_value 0 s = None"
| "read_value (Suc n) [] = None"
| "read_value (Suc n) (c # r) =
     (if c = 34 then map_option (\<lambda>(t, r'). (PStr t, r')) (read_string r [])
      else if c = 91 then
        (case skip_ws r of
           [] \<Rightarrow> None
         | d # r' \<Rightarrow>
             if d = 93 then Some (PList [], r')
             else map_option (\<lambda>(xs, r''). (PList xs, r'')) (read_items n (d # r')))
      else if c = 123 then
        (case skip_ws r of
           [] \<Rightarrow> None
         | d # r' \<Rightarrow>
             if d = 125 then Some (PDict [], r')
             else map_option (\<lambda>(kvs, r''). (PDict (dict_of_pairs kvs), r''))
                    (read_pairs n (d # r')))
      else if c = 110 then expect_word (ustr ''null'') PNone (c # r)
      else if c = 116 then expect_word (ustr ''true'') (PBool True) (c # r)
      else if c = 102 then expect_word (ustr ''false'') (PBool False) (c # r)
      else read_number (c # r))"
| "read_items 0 s = None"
| "read_items (Suc n) s =
     (case read_value n s of
        None \<Rightarrow> None
      | Some (v, r) \<Rightarrow>
          (case skip_ws r of
             [] \<Rightarrow> None
           | d # r' \<Rightarrow>
               if d = 44 then
                 map_option (\<lambda>(vs, r''). (v # vs, r'')) (read_items n (skip_ws r'))
               else if d = 93 then Some ([v], r')
               else None))"
| "read_pairs 0 s = None"
| "read_pairs (Suc n) [] = None"
| "read_pairs (Suc n) (c # r) =
     (if c \<noteq> 34 then None
      else
        (case read_string r [] of
           None \<Rightarrow> None
         | Some (k, r1) \<Rightarrow>
             (case skip_ws r1 of
                [] \<Rightarrow> None
              | d # r2 \<Rightarrow>
                  if d \<noteq> 58 then None
                  else
                    (case read_value n (skip_ws r2) of
                       None \<Rightarrow> None
                     | Some (v, r3) \<Rightarrow>
                         (case skip_ws r3 of
                            [] \<Rightarrow> None
                          | d' # r4 \<Rightarrow>
                              if d' = 44 then
                                map_option (\<lambda>(kvs, r5). ((k, v) # kvs, r5))
                                  (read_pairs n (skip_ws r4))
                              else if d' = 125 then Some ([(k, v)], r4)
                              else None)))))"

text \<open>\<open>json.loads(s)\<close>: one value, with nothing but white space around it.\<close>

definition json_loads :: "pystr \<Rightarrow> pyval option" where
  "json_loads s =
     (case read_value (length s) (skip_ws s) of
        None \<Rightarrow> None
      | Some (v, r) \<Rightarrow> if skip_ws r = [] then Some v else None)"

text \<open>A dictionary has each key once, in a value and in every value it holds.\<close>

fun distinct_keys :: "pyval \<Rightarrow> bool"
  and distinct_keys_items :: "pyval list \<Rightarrow> bool"
  and distinct_keys_pairs :: "(pystr \<times> pyval) list \<Rightarrow> bool"
where
  "distinct_keys (PList xs) = distinct_keys_items xs"
| "distinct_keys (PDict kvs) = (distinct (map fst kvs) \<and> distinct_keys_pairs kvs)"
| "distinct_keys v = True"
| "distinct_keys_items [] = True"
| "distinct_keys_items (x # xs) = (distinct_keys x \<and> distinct_keys_items xs)"
| "distinct_keys_pairs [] = True"
| "distinct_keys_pairs ((k, v) # kvs) = (distinct_keys v \<and> distinct_keys_pairs kvs)"

text \<open>The recursion bound that reading a value back needs.\<close>

fun read_fuel :: "pyval \<Rightarrow> nat"
  and read_fuel_items :: "pyval list \<Rightarrow> nat"
  and read_fuel_pairs :: "(pystr \<times> pyval) list \<Rightarrow> nat"
where
  "read_fuel (PList xs) = Suc (read_fuel_items xs)"
| "read_fuel (PDict kvs) = Suc (read_fuel_pairs kvs)"
| "read_fuel v = 1"
| "read_fuel_items [] = 0"
| "read_fuel_items (x # xs) = Suc (max (read_fuel x) (read_fuel_items xs))"
| "read_fuel_pairs [] = 0"
| "read_fuel_pairs ((k, v) # kvs) = Suc (max (read_fuel v) (read_fuel_pairs kvs))"

text \<open>
  What follows a value in a text the encoder wrote (a comma, a line break or nothing),
  and the characters a value starts with.
\<close>

definition follow_ok :: "pystr \<Rightarrow> bool" where
  "follow_ok r \<longleftrightarrow> r = [] \<or> hd r = 44 \<or> hd r = 10"

definition value_start :: "nat \<Rightarrow> bool" where
  "value_start c \<longleftrightarrow>
     c = 34 \<or> c = 91 \<or> c = 123 \<or> c = 110 \<or> c = 116 \<or> c = 102 \<or> c = 45 \<or> is_digit c"

section \<open>What the encoder accepts\<close>

text \<open>
  The values \<open>json.dump\<close> writes to a UTF-8 text stream without raising: no object of
  another class, no surrogate in a string or a key.
\<close>

fun json_serializable :: "pyval \<Rightarrow> bool"
  and json_serializable_items :: "pyval list \<Rightarrow> bool"
  and json_serializable_pairs :: "(pystr \<times> pyval) list \<Rightarrow> bool"
where
  "json_serializable PNone = True"
| "json_serializable (PBool b) = True"
| "json_serializable (PInt i) = True"
| "json_serializable (PStr s) = list_all utf8_encodable s"
| "json_serializable (PList xs) = json_serializable_items xs"
| "json_serializable (PDict kvs) = json_serializable_pairs kvs"
| "json_serializable (PObject tn) = False"
| "json_serializable_items [] = True"
| "json_serializable_items (x # xs) = (json_serializable x \<and> json_serializable_items xs)"
| "json_serializable_pairs [] = True"
| "json_serializable_pairs ((k, v) # kvs) =
     (list_all utf8_encodable k \<and> json_serializable v \<and> json_serializable_pairs kvs)"

text \<open>Two readings of the clock fall within the same second.\<close>

definition same_second :: "datetime \<Rightarrow> datetime \<Rightarrow> bool" where
  "same_second a b \<longleftrightarrow>
     year a = year b \<and> month a = month b \<and> day a = day b \<and> hour a = hour b
     \<and> minute a = minute b \<and> second a = second b"

section \<open>Example inputs\<close>

definition clock_example :: datetime where
  "clock_example =
     \<lparr>year = 2024, month = 5, day = 6, hour = 7, minute = 8, second = 9, microsecond = 123\<rparr>"

definition clock_example_later :: datetime where
  "clock_example_later =
     \<lparr>year = 2024, month = 5, day = 6, hour = 7, minute = 8, second = 9,
      microsecond = 900000\<rparr>"

text \<open>An environment whose text-generation service answers, and one where it is down.\<close>

definition env_service_up :: env where
  "env_service_up =
     \<lparr>now_filename = clock_example, now_created = clock_example, py_repr = (\<lambda>v. []),
      prompt_call = (\<lambda>p. Inr (Some (ustr ''A sales report.''))),
      open_error = (\<lambda>f. None), codec_message = (\<lambda>s. [])\<rparr>"

definition env_service_down :: env where
  "env_service_down =
     \<lparr>now_filename = clock_example_later, now_created = clock_example_later,
      py_repr = (\<lambda>v. []),
      prompt_call = (\<lambda>p. Inl (PyExc (ustr ''ServerError'') (ustr ''503 UNAVAILABLE''))),
      open_error = (\<lambda>f. None), codec_message = (\<lambda>s. [])\<rparr>"

text \<open>An environment whose working directory is not writable.\<close>

definition env_read_only :: env where
  "env_read_only =
     \<lparr>now_filename = clock_example, now_created = clock_example, py_repr = (\<lambda>v. []),
      prompt_call = (\<lambda>p. Inr (Some (ustr ''A sales report.''))),
      open_error = (\<lambda>f. Some (PyExc (ustr ''PermissionError'')
                                  (ustr ''[Errno 13] Permission denied''))),
      codec_message = (\<lambda>s. [])\<rparr>"

definition request_example :: "(pystr \<times> pyval) list" where
  "request_example =
     [(ustr ''request_type'', PStr (ustr ''reports'')),
      (ustr ''basic_info'', PDict [(ustr ''name'', PStr (ustr ''Ann''))])]"

definition request_with_metadata :: "(pystr \<times> pyval) list" where
  "request_with_metadata =
     [(ustr ''metadata'', PDict [(ustr ''session_id'', PStr (ustr ''abc123''))]),
      (ustr ''request_summary'', PStr (ustr ''old summary''))]"

definition request_unicode :: "(pystr \<times> pyval) list" where
  "request_unicode =
     [(ustr ''basic_info'', PDict [(ustr ''name'', PStr (ustr ''Zo'' @ [0xEB]))])]"

text \<open>The JSON text of the record that \<open>request_unicode\<close> becomes.\<close>

definition example_text :: pystr where
  \<open>example_text =
     ustr ''{'' @ [10]
     @ ustr ''  "basic_info": {'' @ [10]
     @ ustr ''    "name": "Zo'' @ [0xEB] @ ustr ''"'' @ [10]
     @ ustr ''  },'' @ [10]
     @ ustr ''  "request_summary": "A sales report.",'' @ [10]
     @ ustr ''  "metadata": {'' @ [10]
     @ ustr ''    "created_at": "2024-05-06T07:08:09.000123",'' @ [10]
     @ ustr ''    "status": "pending_review"'' @ [10]
     @ ustr ''  }'' @ [10]
     @ ustr ''}''\<close>

section \<open>Properties of the clock formats\<close>

lemma ustr_eq_iff [simp]: "ustr a = ustr b \<longleftrightarrow> a = b"
  unfolding ustr_def by (simp add: inj_map_eq_map inj_on_def)

lemma ustr_Nil [simp]: "ustr [] = []"
  by (simp add: ustr_def)

lemma ustr_eq_Nil [simp]: "ustr a = [] \<longleftrightarrow> a = []"
  by (simp add: ustr_def)

lemma digits_length_le: "0 < w \<Longrightarrow> n < 10 ^ w \<Longrightarrow> length (digits n) \<le> w"
proof (induction n arbitrary: w rule: digits.induct)
  case (1 n)
  show ?case
  proof (cases "n < 10")
    case True
    with "1.prems" show ?thesis by (simp add: digits.simps [of n])
  next
    case False
    with "1.prems" obtain v where w: "w = Suc v" by (cases w) auto
    from False "1.prems" w have "0 < v" by (cases v) auto
    moreover from "1.prems" w have "n div 10 < 10 ^ v"
      by (simp add: less_mult_imp_div_less mult.commute)
    ultimately have "length (digits (n div 10)) \<le> v"
      using "1.IH" False by simp
    with False w show ?thesis by (simp add: digits.simps [of n])
  qed
qed

lemma read_digits_append:
  "read_digits acc (xs @ ys) = Option.bind (read_digits acc xs) (\<lambda>a. read_digits a ys)"
  by (induction xs arbitrary: acc) (auto split: option.splits)

lemma read_digits_zeros: "read_digits acc (replicate k 48) = Some (acc * 10 ^ k)"
  by (induction k arbitrary: acc) auto

lemma read_digits_digits: "read_digits acc (digits n) = Some (acc * 10 ^ length (digits n) + n)"
proof (induction n arbitrary: acc rule: digits.induct)
  case (1 n)
  show ?case
  proof (cases "n < 10")
    case True
    then show ?thesis by (simp add: digits.simps [of n])
  next
    case False
    have "read_digits acc (digits n) =
        Option.bind (read_digits acc (digits (n div 10))) (\<lambda>a. read_digits a [48 + n mod 10])"
      using False by (simp add: digits.simps [of n] read_digits_append)
    also have "\<dots> = Some (10 * (acc * 10 ^ length (digits (n div 10)) + n div 10) + n mod 10)"
      using "1.IH" [OF False] by simp
    also have "\<dots> = Some (acc * 10 ^ length (digits n) + n)"
      using False by (simp add: digits.simps [of n] algebra_simps)
    finally show ?thesis .
  qed
qed

lemma read_digits_zfill: "read_digits 0 (zfill w n) = Some n"
  by (simp add: zfill_def read_digits_append read_digits_zeros read_digits_digits)

lemma length_zfill: "0 < w \<Longrightarrow> n < 10 ^ w \<Longrightarrow> length (zfill w n) = w"
  using digits_length_le [of w n] by (simp add: zfill_def)

lemma read_field_zfill:
  "0 < w \<Longrightarrow> n < 10 ^ w \<Longrightarrow> read_field w (zfill w n @ rest) = Some (n, rest)"
  by (simp add: read_field_def length_zfill read_digits_zfill)

lemma expect_Cons: "expect c (ustr [ch] @ rest) = (if of_char ch = c then Some rest else None)"
  by (simp add: ustr_def)

lemma parse_iso8601_fields:
  assumes v: "valid_datetime t" and f: "read_fraction frac = Some (microsecond t)"
  shows "parse_iso8601 (zfill 4 (year t) @ ustr ''-'' @ zfill 2 (month t) @ ustr ''-''
     @ zfill 2 (day t) @ ustr ''T'' @ zfill 2 (hour t) @ ustr '':'' @ zfill 2 (minute t)
     @ ustr '':'' @ zfill 2 (second t) @ frac) = Some t"
proof -
  from v have b: "year t < 10 ^ 4" "month t < 10 ^ 2" "day t < 10 ^ 2" "hour t < 10 ^ 2"
    "minute t < 10 ^ 2" "second t < 10 ^ 2"
    by (auto simp: valid_datetime_def days_in_month_def split: if_splits)
  have r: "\<And>rest. read_field 4 (zfill 4 (year t) @ rest) = Some (year t, rest)"
    "\<And>rest. read_field 2 (zfill 2 (month t) @ rest) = Some (month t, rest)"
    "\<And>rest. read_field 2 (zfill 2 (day t) @ rest) = Some (day t, rest)"
    "\<And>rest. read_field 2 (zfill 2 (hour t) @ rest) = Some (hour t, rest)"
    "\<And>rest. read_field 2 (zfill 2 (minute t) @ rest) = Some (minute t, rest)"
    "\<And>rest. read_field 2 (zfill 2 (second t) @ rest) = Some (second t, rest)"
    using b by (simp_all only: read_field_zfill zero_less_numeral)
  have s: "\<lparr>year = year t, month = month t, day = day t, hour = hour t,
      minute = minute t, second = second t, microsecond = microsecond t\<rparr> = t"
    by (cases t) simp
  show ?thesis
    unfolding parse_iso8601_def
    using v by (simp add: r expect_Cons f s)
qed

lemma read_fraction_isoformat:
  "microsecond t < 1000000 \<Longrightarrow>
   read_fraction (if microsecond t \<noteq> 0 then ustr ''.'' @ zfill 6 (microsecond t) else [])
      = Some (microsecond t)"
  using read_field_zfill [of 6 "microsecond t" "[]"]
  by (simp add: read_fraction_def expect_Cons)

lemma parse_isoformat: "valid_datetime t \<Longrightarrow> parse_iso8601 (isoformat t) = Some t"
  unfolding isoformat_def
  using parse_iso8601_fields [OF _ read_fraction_isoformat, of t]
  by (simp add: valid_datetime_def)

section \<open>Properties of the validator\<close>

lemma dropWhile_all_space: "list_all isspace s \<Longrightarrow> dropWhile isspace s = []"
  by (induction s) auto

lemma strip_all_space: "list_all isspace s \<Longrightarrow> strip s = []"
  by (simp add: strip_def dropWhile_all_space)

lemma check_field_str:
  "0 < m \<Longrightarrow> check_field (PStr s) m msg errors =
     Inr (errors @ (if field_invalid m s then [ustr msg] else []))"
  by (auto simp: check_field_def ebind_def field_invalid_def strip_all_space)

lemma validate_str:
  "validate_basic_info now (PStr name) (PStr role) (PStr department) (PStr timeline) =
     Inr (if expected_errors name role department timeline \<noteq> [] then
            PDict [(ustr ''valid'', PBool False),
                   (ustr ''errors'',
                    PList (map PStr (expected_errors name role department timeline)))]
          else
            PDict [(ustr ''valid'', PBool True),
                   (ustr ''data'', PDict [
                      (ustr ''name'', PStr (strip name)),
                      (ustr ''role'', PStr (strip role)),
                      (ustr ''department'', PStr (strip department)),
                      (ustr ''timeline'', PStr (strip timeline)),
                      (ustr ''collected_at'', PStr (isoformat now))])])"
  unfolding validate_basic_info_def
  by (simp add: check_field_str ebind_def expected_errors_def)

lemma expected_errors_Nil:
  "expected_errors name role department timeline = [] \<longleftrightarrow>
     \<not> (field_invalid 2 name \<or> field_invalid 2 role \<or> field_invalid 2 department
        \<or> field_invalid 3 timeline)"
  by (simp add: expected_errors_def)

text \<open>
  Claim C1. For every four strings, the result has \<open>valid: False\<close> exactly when at least
  one field is empty, whitespace-only or, after trimming, shorter than its minimum (name
  2, role 2, department 2, timeline 3). All four fields are checked, and the errors are
  exactly one message per violated field, in the order name, role, department, timeline.
\<close>

theorem validate_reports_every_violation:
  "\<exists>r. validate_basic_info now (PStr name) (PStr role) (PStr department) (PStr timeline) = Inr r
     \<and> (py_get r (ustr ''valid'') = Some (PBool False)
          \<longleftrightarrow> field_invalid 2 name \<or> field_invalid 2 role \<or> field_invalid 2 department
              \<or> field_invalid 3 timeline)
     \<and> (py_get r (ustr ''valid'') = Some (PBool False) \<longrightarrow>
          r = PDict [(ustr ''valid'', PBool False),
                     (ustr ''errors'',
                      PList (map PStr (expected_errors name role department timeline)))])"
  by (simp add: validate_str expected_errors_Nil dict_get_def)

theorem validate_reports_every_violation_witness:
  "validate_basic_info
     \<lparr>year = 2024, month = 5, day = 6, hour = 7, minute = 8, second = 9, microsecond = 123\<rparr>
     (PStr []) (PStr []) (PStr []) (PStr []) =
   Inr (PDict [(ustr ''valid'', PBool False),
               (ustr ''errors'',
                PList [PStr (ustr ''Name must be at least 2 characters long''),
                       PStr (ustr ''Role must be specified''),
                       PStr (ustr ''Department must be specified''),
                       PStr (ustr ''Timeline must be specified'')])])"
  using validate_reports_every_violation [of
     "\<lparr>year = 2024, month = 5, day = 6, hour = 7, minute = 8, second = 9, microsecond = 123\<rparr>"
     "[]" "[]" "[]" "[]"]
  by (auto simp: expected_errors_def field_invalid_def)

text \<open>The validator does raise on a truthy argument that is not a string.\<close>

lemma validate_non_string_raises:
  "validate_basic_info now (PInt 5) role department timeline =
     Inl (no_attribute (PInt 5) ''strip'')"
  by (simp add: validate_basic_info_def check_field_def ebind_def)


text \<open>
  Claim C7. On four strings the validator never raises: it returns a result, and for
  every malformed input that result is the structured \<open>valid: False\<close> record whose
  \<open>errors\<close> list every violated rule.
\<close>

theorem validate_never_raises:
  "validate_basic_info now (PStr name) (PStr role) (PStr department) (PStr timeline) \<noteq> Inl e
   \<and> (\<exists>r. validate_basic_info now (PStr name) (PStr role) (PStr department) (PStr timeline)
           = Inr r
        \<and> (field_invalid 2 name \<or> field_invalid 2 role \<or> field_invalid 2 department
            \<or> field_invalid 3 timeline \<longrightarrow>
            py_get r (ustr ''valid'') = Some (PBool False)
            \<and> py_get r (ustr ''errors'')
                = Some (PList (map PStr (expected_errors name role department timeline)))
            \<and> expected_errors name role department timeline \<noteq> []))"
  by (simp add: validate_str expected_errors_Nil dict_get_def)

theorem validate_never_raises_witness:
  "(\<exists>r. validate_basic_info
       \<lparr>year = 2024, month = 5, day = 6, hour = 7, minute = 8, second = 9, microsecond = 123\<rparr>
       (PStr (ustr ''J'')) (PStr (ustr ''VP'')) (PStr (ustr ''Sales'')) (PStr (ustr ''ASAP''))
       = Inr r
     \<and> py_get r (ustr ''errors'')
         = Some (PList [PStr (ustr ''Name must be at least 2 characters long'')]))"
proof -
  have "field_invalid 2 (ustr ''J'')" "\<not> field_invalid 2 (ustr ''VP'')"
    "\<not> field_invalid 2 (ustr ''Sales'')" "\<not> field_invalid 3 (ustr ''ASAP'')"
    by (simp_all add: field_invalid_def strip_def isspace_def ustr_def)
  then show ?thesis
    using validate_never_raises [of
     "\<lparr>year = 2024, month = 5, day = 6, hour = 7, minute = 8, second = 9, microsecond = 123\<rparr>"
     "ustr ''J''" "ustr ''VP''" "ustr ''Sales''" "ustr ''ASAP''"]
    by (auto simp: expected_errors_def)
qed

text \<open>
  Claim C6. When all four strings satisfy the minimum-length rule, the result is
  \<open>valid: True\<close> with a \<open>data\<close> record of exactly the four trimmed values and
  \<open>collected_at\<close>, the reading of the clock in ISO-8601, which reads back to that
  reading.
\<close>

theorem validate_success_data:
  assumes "\<not> field_invalid 2 name" and "\<not> field_invalid 2 role"
    and "\<not> field_invalid 2 department" and "\<not> field_invalid 3 timeline"
    and "valid_datetime now"
  shows "validate_basic_info now (PStr name) (PStr role) (PStr department) (PStr timeline) =
      Inr (PDict [(ustr ''valid'', PBool True),
                  (ustr ''data'', PDict [
                     (ustr ''name'', PStr (strip name)),
                     (ustr ''role'', PStr (strip role)),
                     (ustr ''department'', PStr (strip department)),
                     (ustr ''timeline'', PStr (strip timeline)),
                     (ustr ''collected_at'', PStr (isoformat now))])])
    \<and> parse_iso8601 (isoformat now) = Some now"
  using assms by (simp add: validate_str expected_errors_Nil parse_isoformat)

lemma replicate_numeral_unfold:
  "replicate (numeral k) x = x # replicate (pred_numeral k) x"
  by (simp add: numeral_eq_Suc)

lemma isoformat_example:
  "isoformat \<lparr>year = 2024, month = 5, day = 6, hour = 7, minute = 8, second = 9, microsecond = 123\<rparr>
     = ustr ''2024-05-06T07:08:09.000123''"
  by (simp add: isoformat_def zfill_def digits.simps ustr_def replicate_numeral_unfold)

lemma strip_example: "strip (ustr ''  Ann '') = ustr ''Ann''"
  by (simp add: strip_def isspace_def ustr_def)

theorem validate_success_data_witness:
  "validate_basic_info
     \<lparr>year = 2024, month = 5, day = 6, hour = 7, minute = 8, second = 9, microsecond = 123\<rparr>
     (PStr (ustr ''Ann'')) (PStr (ustr ''Analyst'')) (PStr (ustr ''Finance''))
     (PStr (ustr ''next week'')) =
   Inr (PDict [(ustr ''valid'', PBool True),
               (ustr ''data'', PDict [
                  (ustr ''name'', PStr (ustr ''Ann'')),
                  (ustr ''role'', PStr (ustr ''Analyst'')),
                  (ustr ''department'', PStr (ustr ''Finance'')),
                  (ustr ''timeline'', PStr (ustr ''next week'')),
                  (ustr ''collected_at'', PStr (ustr ''2024-05-06T07:08:09.000123''))])])
   \<and> parse_iso8601 (ustr ''2024-05-06T07:08:09.000123'') =
       Some \<lparr>year = 2024, month = 5, day = 6, hour = 7, minute = 8, second = 9,
              microsecond = 123\<rparr>"
proof -
  have s: "strip (ustr ''Ann'') = ustr ''Ann''" "strip (ustr ''Analyst'') = ustr ''Analyst''"
    "strip (ustr ''Finance'') = ustr ''Finance''" "strip (ustr ''next week'') = ustr ''next week''"
    by (simp_all add: strip_def isspace_def ustr_def)
  have v: "valid_datetime
     \<lparr>year = 2024, month = 5, day = 6, hour = 7, minute = 8, second = 9, microsecond = 123\<rparr>"
    by (simp add: valid_datetime_def days_in_month_def)
  have f: "\<not> field_invalid 2 (ustr ''Ann'')" "\<not> field_invalid 2 (ustr ''Analyst'')"
    "\<not> field_invalid 2 (ustr ''Finance'')" "\<not> field_invalid 3 (ustr ''next week'')"
    by (simp_all add: field_invalid_def strip_def isspace_def ustr_def)
  show ?thesis
    using validate_success_data [OF f v] by (simp add: s isoformat_example)
qed


lemma result_timestamp_success:
  "valid_datetime now \<Longrightarrow>
   result_timestamp (PDict [(ustr ''valid'', PBool True),
       (ustr ''data'', PDict [(ustr ''name'', n), (ustr ''role'', r), (ustr ''department'', d),
          (ustr ''timeline'', t), (ustr ''collected_at'', PStr (isoformat now))])]) = Some now"
  by (simp add: result_timestamp_def data_field_def dict_get_def parse_isoformat)

lemma result_timestamp_failure:
  "result_timestamp (PDict [(ustr ''valid'', PBool False), (ustr ''errors'', es)]) = None"
  by (simp add: result_timestamp_def data_field_def dict_get_def)

text \<open>
  Claim C8, as amended. Two calls with identical arguments, the first reading \<open>t1\<close> on
  the clock and the second \<open>t2\<close>, agree on \<open>valid\<close>, on \<open>errors\<close> and on every
  \<open>data\<close> field except \<open>collected_at\<close>; the second timestamp is not earlier than the
  first exactly when the validation fails (no timestamps) or the second reading of the
  wall clock is not earlier than the first.
\<close>

theorem validate_repeatable:
  assumes "valid_datetime t1" and "valid_datetime t2"
  shows "\<exists>r1 r2.
      validate_basic_info t1 (PStr name) (PStr role) (PStr department) (PStr timeline) = Inr r1
    \<and> validate_basic_info t2 (PStr name) (PStr role) (PStr department) (PStr timeline) = Inr r2
    \<and> py_get r1 (ustr ''valid'') = py_get r2 (ustr ''valid'')
    \<and> py_get r1 (ustr ''errors'') = py_get r2 (ustr ''errors'')
    \<and> (\<forall>k. k \<noteq> ustr ''collected_at'' \<longrightarrow> data_field r1 k = data_field r2 k)
    \<and> (timestamp_non_decreasing r1 r2 \<longleftrightarrow>
          expected_errors name role department timeline \<noteq> [] \<or> datetime_le t1 t2)"
proof (cases "expected_errors name role department timeline = []")
  case True
  then show ?thesis
    using assms
    by (simp add: validate_str timestamp_non_decreasing_def result_timestamp_success
        data_field_def dict_get_def)
next
  case False
  then show ?thesis
    by (simp add: validate_str timestamp_non_decreasing_def result_timestamp_failure)
qed

lemma isoformat_dst_first:
  "isoformat \<lparr>year = 2026, month = 10, day = 25, hour = 2, minute = 59, second = 59,
      microsecond = 500000\<rparr> = ustr ''2026-10-25T02:59:59.500000''"
  by (simp add: isoformat_def zfill_def digits.simps ustr_def replicate_numeral_unfold)

lemma isoformat_dst_second:
  "isoformat \<lparr>year = 2026, month = 10, day = 25, hour = 2, minute = 0, second = 0,
      microsecond = 500000\<rparr> = ustr ''2026-10-25T02:00:00.500000''"
  by (simp add: isoformat_def zfill_def digits.simps ustr_def replicate_numeral_unfold)

lemma valid_datetime_dst:
  "valid_datetime \<lparr>year = 2026, month = 10, day = 25, hour = 2, minute = 59, second = 59,
      microsecond = 500000\<rparr>"
  "valid_datetime \<lparr>year = 2026, month = 10, day = 25, hour = 2, minute = 0, second = 0,
      microsecond = 500000\<rparr>"
  by (simp_all add: valid_datetime_def days_in_month_def)

lemma fields_ann:
  "\<not> field_invalid 2 (ustr ''Ann'')" "\<not> field_invalid 2 (ustr ''Analyst'')"
  "\<not> field_invalid 2 (ustr ''Finance'')" "\<not> field_invalid 3 (ustr ''next week'')"
  by (simp_all add: field_invalid_def strip_def isspace_def ustr_def)

lemma strip_ann:
  "strip (ustr ''Ann'') = ustr ''Ann''" "strip (ustr ''Analyst'') = ustr ''Analyst''"
  "strip (ustr ''Finance'') = ustr ''Finance''" "strip (ustr ''next week'') = ustr ''next week''"
  by (simp_all add: strip_def isspace_def ustr_def)

text \<open>
  Claim C8 as stated fails: \<open>datetime.now()\<close> is the naive local wall clock, which is
  set back an hour when daylight saving time ends. A first call at 02:59:59.5 and a
  second call one second later, at 02:00:00.5 local time, return a decreasing
  \<open>collected_at\<close>.
\<close>

theorem validate_timestamp_counterexample:
  "validate_basic_info
     \<lparr>year = 2026, month = 10, day = 25, hour = 2, minute = 59, second = 59,
       microsecond = 500000\<rparr>
     (PStr (ustr ''Ann'')) (PStr (ustr ''Analyst'')) (PStr (ustr ''Finance''))
     (PStr (ustr ''next week'')) =
   Inr (PDict [(ustr ''valid'', PBool True),
               (ustr ''data'', PDict [
                  (ustr ''name'', PStr (ustr ''Ann'')),
                  (ustr ''role'', PStr (ustr ''Analyst'')),
                  (ustr ''department'', PStr (ustr ''Finance'')),
                  (ustr ''timeline'', PStr (ustr ''next week'')),
                  (ustr ''collected_at'', PStr (ustr ''2026-10-25T02:59:59.500000''))])])
   \<and> validate_basic_info
     \<lparr>year = 2026, month = 10, day = 25, hour = 2, minute = 0, second = 0,
       microsecond = 500000\<rparr>
     (PStr (ustr ''Ann'')) (PStr (ustr ''Analyst'')) (PStr (ustr ''Finance''))
     (PStr (ustr ''next week'')) =
   Inr (PDict [(ustr ''valid'', PBool True),
               (ustr ''data'', PDict [
                  (ustr ''name'', PStr (ustr ''Ann'')),
                  (ustr ''role'', PStr (ustr ''Analyst'')),
                  (ustr ''department'', PStr (ustr ''Finance'')),
                  (ustr ''timeline'', PStr (ustr ''next week'')),
                  (ustr ''collected_at'', PStr (ustr ''2026-10-25T02:00:00.500000''))])])
   \<and> \<not> timestamp_non_decreasing
     (PDict [(ustr ''valid'', PBool True),
               (ustr ''data'', PDict [
                  (ustr ''name'', PStr (ustr ''Ann'')),
                  (ustr ''role'', PStr (ustr ''Analyst'')),
                  (ustr ''department'', PStr (ustr ''Finance'')),
                  (ustr ''timeline'', PStr (ustr ''next week'')),
                  (ustr ''collected_at'', PStr (ustr ''2026-10-25T02:59:59.500000''))])])
     (PDict [(ustr ''valid'', PBool True),
               (ustr ''data'', PDict [
                  (ustr ''name'', PStr (ustr ''Ann'')),
                  (ustr ''role'', PStr (ustr ''Analyst'')),
                  (ustr ''department'', PStr (ustr ''Finance'')),
                  (ustr ''timeline'', PStr (ustr ''next week'')),
                  (ustr ''collected_at'', PStr (ustr ''2026-10-25T02:00:00.500000''))])])"
proof -
  have e: "expected_errors (ustr ''Ann'') (ustr ''Analyst'') (ustr ''Finance'')
      (ustr ''next week'') = []"
    by (simp add: expected_errors_def fields_ann)
  have t: "\<not> datetime_le
      \<lparr>year = 2026, month = 10, day = 25, hour = 2, minute = 59, second = 59,
        microsecond = 500000\<rparr>
      \<lparr>year = 2026, month = 10, day = 25, hour = 2, minute = 0, second = 0,
        microsecond = 500000\<rparr>"
    by (simp add: datetime_le_def datetime_key_def)
  show ?thesis
    using result_timestamp_success [OF valid_datetime_dst(1)]
      result_timestamp_success [OF valid_datetime_dst(2)] t
    by (simp add: validate_str e strip_ann isoformat_dst_first isoformat_dst_second
        timestamp_non_decreasing_def)
qed

theorem validate_repeatable_witness:
  "\<exists>r1 r2.
      validate_basic_info
        \<lparr>year = 2026, month = 10, day = 25, hour = 2, minute = 0, second = 0,
          microsecond = 500000\<rparr>
        (PStr (ustr ''Ann'')) (PStr (ustr ''Analyst'')) (PStr (ustr ''Finance''))
        (PStr (ustr ''next week'')) = Inr r1
    \<and> validate_basic_info
        \<lparr>year = 2026, month = 10, day = 25, hour = 2, minute = 59, second = 59,
          microsecond = 500000\<rparr>
        (PStr (ustr ''Ann'')) (PStr (ustr ''Analyst'')) (PStr (ustr ''Finance''))
        (PStr (ustr ''next week'')) = Inr r2
    \<and> data_field r1 (ustr ''name'') = data_field r2 (ustr ''name'')
    \<and> timestamp_non_decreasing r1 r2"
proof -
  have t: "datetime_le
      \<lparr>year = 2026, month = 10, day = 25, hour = 2, minute = 0, second = 0,
        microsecond = 500000\<rparr>
      \<lparr>year = 2026, month = 10, day = 25, hour = 2, minute = 59, second = 59,
        microsecond = 500000\<rparr>"
    by (simp add: datetime_le_def datetime_key_def)
  from validate_repeatable [OF valid_datetime_dst(2) valid_datetime_dst(1),
      of "ustr ''Ann''" "ustr ''Analyst''" "ustr ''Finance''" "ustr ''next week''"] t
  show ?thesis
    by auto
qed

section \<open>Properties of the persister\<close>

lemma dict_get_set: "dict_get (dict_set d k v) k' = (if k' = k then Some v else dict_get d k')"
  by (induction d) (auto simp: dict_get_def)

lemma dict_keys_set:
  "dict_keys (dict_set d k v) = (if k \<in> set (dict_keys d) then dict_keys d else dict_keys d @ [k])"
  by (induction d) (force simp: dict_keys_def)+

lemma utf8_encodable_ascii: "c < 256 \<Longrightarrow> utf8_encodable c"
  by (simp add: utf8_encodable_def)

lemma list_all_encodable_ustr [simp]: "list_all utf8_encodable (ustr s)"
  by (simp add: ustr_def list_all_iff utf8_encodable_ascii)

lemma digits_encodable: "list_all utf8_encodable (digits n)"
proof (induction n rule: digits.induct)
  case (1 n)
  then show ?case
    by (cases "n < 10") (simp_all add: digits.simps [of n] utf8_encodable_ascii)
qed

lemma zfill_encodable [simp]: "list_all utf8_encodable (zfill w n)"
  using digits_encodable [of n]
  by (auto simp: zfill_def list_all_iff utf8_encodable_ascii)

lemma isoformat_encodable [simp]: "list_all utf8_encodable (isoformat t)"
  by (simp add: isoformat_def)

lemma json_value_serializable:
  "(json_serializable v \<longleftrightarrow> (\<exists>text. json_value codec level v = Inr text))"
  "(json_serializable_items xs \<longleftrightarrow> (\<exists>text. json_items codec level xs = Inr text))"
  "(json_serializable_pairs kvs \<longleftrightarrow> (\<exists>text. json_pairs codec level kvs = Inr text))"
proof (induction codec level v and codec level xs and codec level kvs
    rule: json_value_json_items_json_pairs.induct)
qed (auto simp: ebind_def emit_str_def split: sum.splits)

lemma save_analytics_request_cases:
  "save_analytics_request env fs rd =
     (let fn = request_filename (now_filename env); rd' = add_summary_and_metadata env rd
      in case open_error env fn of
           Some e \<Rightarrow> (rd', fs, save_error e)
         | None \<Rightarrow>
             (case json_value (codec_message env) 0 (PDict rd') of
                Inl e \<Rightarrow> (rd', fs(fn \<mapsto> Incomplete), save_error e)
              | Inr text \<Rightarrow>
                  (rd', fs(fn \<mapsto> Complete (utf8_encode text)),
                   case save_success env fn rd' of Inl e \<Rightarrow> save_error e | Inr r \<Rightarrow> r)))"
  by (simp add: save_analytics_request_def save_try_def write_json_def Let_def
      split: option.split sum.split)

lemma save_error_status [simp]:
  "py_get (save_error e) (ustr ''status'') = Some (PStr (ustr ''error''))"
  by (simp add: save_error_def dict_get_def)

lemma save_success_status:
  "save_success env fn rd = Inr r \<Longrightarrow> py_get r (ustr ''status'') = Some (PStr (ustr ''success''))"
  by (auto simp: save_success_def ebind_def dict_get_def split: sum.splits)

lemma add_summary_and_metadata_get:
  "dict_get (add_summary_and_metadata env rd) k =
     (if k = ustr ''metadata'' then
        Some (PDict [(ustr ''created_at'', PStr (isoformat (now_created env))),
                     (ustr ''status'', PStr (ustr ''pending_review''))])
      else if k = ustr ''request_summary'' then
        Some (summarize_analytics_request env (PDict rd))
      else dict_get rd k)"
  by (simp add: add_summary_and_metadata_def Let_def dict_get_set)

lemma add_summary_and_metadata_keys:
  "set (dict_keys (add_summary_and_metadata env rd)) =
     set (dict_keys rd) \<union> {ustr ''request_summary'', ustr ''metadata''}"
  by (auto simp: add_summary_and_metadata_def Let_def dict_keys_set)

text \<open>A successful call: what it wrote and what it returned.\<close>

lemma save_success_cases:
  assumes "py_get (snd (snd (save_analytics_request env fs rd))) (ustr ''status'')
      = Some (PStr (ustr ''success''))"
  shows "\<exists>text r.
      open_error env (request_filename (now_filename env)) = None
    \<and> json_value (codec_message env) 0 (PDict (add_summary_and_metadata env rd)) = Inr text
    \<and> save_success env (request_filename (now_filename env)) (add_summary_and_metadata env rd)
        = Inr r
    \<and> save_analytics_request env fs rd =
        (add_summary_and_metadata env rd,
         fs(request_filename (now_filename env) \<mapsto> Complete (utf8_encode text)), r)"
  using assms
  by (auto simp: save_analytics_request_cases Let_def split: option.splits sum.splits)


lemma isoformat_clock_example:
  "isoformat clock_example = ustr ''2024-05-06T07:08:09.000123''"
  "isoformat clock_example_later = ustr ''2024-05-06T07:08:09.900000''"
  by (simp_all add: clock_example_def clock_example_later_def isoformat_def zfill_def
      digits.simps ustr_def replicate_numeral_unfold)

lemma request_filename_example:
  "request_filename clock_example = ustr ''analytics_request_20240506_070809.json''"
  "request_filename clock_example_later = ustr ''analytics_request_20240506_070809.json''"
  by (simp_all add: clock_example_def clock_example_later_def request_filename_def
      strftime_stamp_def zfill_def digits.simps ustr_def replicate_numeral_unfold)

text \<open>
  Two environments that differ in the answer of the service and in the reading of the
  clock: no value supplied under \<open>request_summary\<close> or \<open>metadata\<close> survives in both.
\<close>

lemma summaries_differ:
  "summarize_analytics_request env_service_up (PDict rd)
     \<noteq> summarize_analytics_request env_service_down (PDict rd)"
  by (simp add: summarize_analytics_request_def env_service_up_def env_service_down_def
      Let_def)

lemma created_differ:
  "isoformat (now_created env_service_up) \<noteq> isoformat (now_created env_service_down)"
  by (simp add: env_service_up_def env_service_down_def isoformat_clock_example ustr_def)

lemma reproduced_in_every_environment_iff:
  "(\<forall>e k v. dict_get rd k = Some v \<longrightarrow> dict_get (add_summary_and_metadata e rd) k = Some v)
   \<longleftrightarrow> dict_get rd (ustr ''request_summary'') = None
        \<and> dict_get rd (ustr ''metadata'') = None"
  (is "?L \<longleftrightarrow> ?R")
proof
  assume l: ?L
  have "dict_get rd (ustr ''request_summary'') = None"
  proof (cases "dict_get rd (ustr ''request_summary'')")
    case (Some v)
    with l have "dict_get (add_summary_and_metadata env_service_up rd)
          (ustr ''request_summary'') = Some v"
      and "dict_get (add_summary_and_metadata env_service_down rd)
          (ustr ''request_summary'') = Some v"
      by blast+
    then show ?thesis
      using summaries_differ [of rd] by (simp add: add_summary_and_metadata_get)
  qed simp
  moreover have "dict_get rd (ustr ''metadata'') = None"
  proof (cases "dict_get rd (ustr ''metadata'')")
    case (Some v)
    with l have "dict_get (add_summary_and_metadata env_service_up rd)
          (ustr ''metadata'') = Some v"
      and "dict_get (add_summary_and_metadata env_service_down rd)
          (ustr ''metadata'') = Some v"
      by blast+
    then show ?thesis
      using created_differ by (auto simp add: add_summary_and_metadata_get)
  qed simp
  ultimately show ?R by simp
next
  assume r: ?R
  show ?L
  proof (intro allI impI)
    fix e k v
    assume "dict_get rd k = Some v"
    with r show "dict_get (add_summary_and_metadata e rd) k = Some v"
      by (cases "k = ustr ''metadata''"; cases "k = ustr ''request_summary''")
        (simp_all add: add_summary_and_metadata_get)
  qed
qed

text \<open>
  Claim C10. The call updates the dictionary of its caller: after the call it holds
  \<open>request_summary\<close> and \<open>metadata\<close>, whatever it held under these keys before
  (the metadata is exactly \<open>created_at\<close> and \<open>status\<close>), and every other key keeps
  its value. So every supplied key is reproduced, whatever the service answers and the
  clock reads, exactly for the inputs that lack these two keys; in one given call a
  value supplied under one of the two keys is reproduced only if it happens to equal
  the new one.
\<close>

theorem save_updates_argument:
  "fst (save_analytics_request env fs rd) = add_summary_and_metadata env rd
   \<and> dict_get (add_summary_and_metadata env rd) (ustr ''request_summary'')
       = Some (summarize_analytics_request env (PDict rd))
   \<and> dict_get (add_summary_and_metadata env rd) (ustr ''metadata'')
       = Some (PDict [(ustr ''created_at'', PStr (isoformat (now_created env))),
                      (ustr ''status'', PStr (ustr ''pending_review''))])
   \<and> (\<forall>k. k \<noteq> ustr ''request_summary'' \<and> k \<noteq> ustr ''metadata'' \<longrightarrow>
          dict_get (add_summary_and_metadata env rd) k = dict_get rd k)
   \<and> set (dict_keys (add_summary_and_metadata env rd))
       = set (dict_keys rd) \<union> {ustr ''request_summary'', ustr ''metadata''}
   \<and> ((\<forall>e k v. dict_get rd k = Some v \<longrightarrow>
            dict_get (add_summary_and_metadata e rd) k = Some v)
        \<longleftrightarrow> dict_get rd (ustr ''request_summary'') = None
            \<and> dict_get rd (ustr ''metadata'') = None)
   \<and> ((\<forall>k v. dict_get rd k = Some v \<longrightarrow> dict_get (add_summary_and_metadata env rd) k = Some v)
        \<longleftrightarrow> (dict_get rd (ustr ''request_summary'') = None
              \<or> dict_get rd (ustr ''request_summary'')
                  = Some (summarize_analytics_request env (PDict rd)))
            \<and> (dict_get rd (ustr ''metadata'') = None
              \<or> dict_get rd (ustr ''metadata'')
                  = Some (PDict [(ustr ''created_at'', PStr (isoformat (now_created env))),
                                 (ustr ''status'', PStr (ustr ''pending_review''))])))"
proof -
  note every = reproduced_in_every_environment_iff [of rd]
  have "fst (save_analytics_request env fs rd) = add_summary_and_metadata env rd"
    by (simp add: save_analytics_request_cases Let_def split: option.split sum.split)
  moreover have "(\<forall>k v. dict_get rd k = Some v \<longrightarrow>
        dict_get (add_summary_and_metadata env rd) k = Some v)
     \<longleftrightarrow> (dict_get rd (ustr ''request_summary'') = None
              \<or> dict_get rd (ustr ''request_summary'')
                  = Some (summarize_analytics_request env (PDict rd)))
            \<and> (dict_get rd (ustr ''metadata'') = None
              \<or> dict_get rd (ustr ''metadata'')
                  = Some (PDict [(ustr ''created_at'', PStr (isoformat (now_created env))),
                                 (ustr ''status'', PStr (ustr ''pending_review''))]))"
    (is "?L \<longleftrightarrow> ?R")
  proof
    assume l: ?L
    have "dict_get rd (ustr ''request_summary'') = None
        \<or> dict_get rd (ustr ''request_summary'')
            = Some (summarize_analytics_request env (PDict rd))"
    proof (cases "dict_get rd (ustr ''request_summary'')")
      case (Some v)
      with l have "dict_get (add_summary_and_metadata env rd) (ustr ''request_summary'') = Some v"
        by blast
      with Some show ?thesis by (simp add: add_summary_and_metadata_get)
    qed simp
    moreover have "dict_get rd (ustr ''metadata'') = None
        \<or> dict_get rd (ustr ''metadata'')
            = Some (PDict [(ustr ''created_at'', PStr (isoformat (now_created env))),
                           (ustr ''status'', PStr (ustr ''pending_review''))])"
    proof (cases "dict_get rd (ustr ''metadata'')")
      case (Some v)
      with l have "dict_get (add_summary_and_metadata env rd) (ustr ''metadata'') = Some v"
        by blast
      with Some show ?thesis by (simp add: add_summary_and_metadata_get)
    qed simp
    ultimately show ?R by blast
  next
    assume r: ?R
    show ?L
    proof (intro allI impI)
      fix k v
      assume "dict_get rd k = Some v"
      with r show "dict_get (add_summary_and_metadata env rd) k = Some v"
        by (cases "k = ustr ''metadata''"; cases "k = ustr ''request_summary''")
          (simp_all add: add_summary_and_metadata_get)
    qed
  qed
  ultimately show ?thesis
    using every by (simp add: add_summary_and_metadata_get add_summary_and_metadata_keys)
qed

theorem save_updates_argument_witness:
  "fst (save_analytics_request env_service_up Map.empty request_with_metadata) =
     [(ustr ''metadata'',
       PDict [(ustr ''created_at'', PStr (ustr ''2024-05-06T07:08:09.000123'')),
              (ustr ''status'', PStr (ustr ''pending_review''))]),
      (ustr ''request_summary'', PStr (ustr ''A sales report.''))]"
  using save_updates_argument [of env_service_up Map.empty request_with_metadata]
  by (simp add: add_summary_and_metadata_def summarize_analytics_request_def Let_def
      env_service_up_def request_with_metadata_def isoformat_clock_example)

text \<open>
  The argument \<open>basic_info\<close> of the result's summary can be read: it is absent or a
  dictionary.
\<close>

lemma save_success_Inr_iff:
  "(\<exists>r. save_success env fn (add_summary_and_metadata env rd) = Inr r) \<longleftrightarrow>
     (case dict_get rd (ustr ''basic_info'') of
        None \<Rightarrow> True | Some (PDict b) \<Rightarrow> True | Some _ \<Rightarrow> False)"
  by (auto simp: save_success_def ebind_def add_summary_and_metadata_get
      split: option.splits pyval.splits)

lemma save_status_success_iff:
  "py_get (snd (snd (save_analytics_request env fs rd))) (ustr ''status'')
     = Some (PStr (ustr ''success''))
   \<longleftrightarrow> open_error env (request_filename (now_filename env)) = None
     \<and> json_serializable (PDict (add_summary_and_metadata env rd))
     \<and> (case dict_get rd (ustr ''basic_info'') of
          None \<Rightarrow> True | Some (PDict b) \<Rightarrow> True | Some _ \<Rightarrow> False)"
proof (cases "open_error env (request_filename (now_filename env))")
  case (Some e)
  then show ?thesis
    by (simp add: save_analytics_request_cases Let_def)
next
  case None
  show ?thesis
  proof (cases "json_value (codec_message env) 0 (PDict (add_summary_and_metadata env rd))")
    case (Inl e)
    then have "\<not> json_serializable (PDict (add_summary_and_metadata env rd))"
      using json_value_serializable(1)
        [of "PDict (add_summary_and_metadata env rd)" "codec_message env" 0]
      by simp
    with None Inl show ?thesis
      by (simp add: save_analytics_request_cases Let_def)
  next
    case (Inr jtext)
    then have s: "json_serializable (PDict (add_summary_and_metadata env rd))"
      using json_value_serializable(1)
        [of "PDict (add_summary_and_metadata env rd)" "codec_message env" 0]
      by simp
    show ?thesis
    proof (cases "save_success env (request_filename (now_filename env))
        (add_summary_and_metadata env rd)")
      case (Inl e)
      with save_success_Inr_iff [of env "request_filename (now_filename env)" rd]
      have "\<not> (case dict_get rd (ustr ''basic_info'') of
          None \<Rightarrow> True | Some (PDict b) \<Rightarrow> True | Some _ \<Rightarrow> False)"
        by simp
      with None Inr Inl show ?thesis
        by (simp add: save_analytics_request_cases Let_def)
    next
      case r: (Inr r)
      with save_success_Inr_iff [of env "request_filename (now_filename env)" rd]
      have "case dict_get rd (ustr ''basic_info'') of
          None \<Rightarrow> True | Some (PDict b) \<Rightarrow> True | Some _ \<Rightarrow> False"
        by blast
      with None Inr r s save_success_status [OF r] show ?thesis
        by (simp add: save_analytics_request_cases Let_def)
    qed
  qed
qed

lemma save_succeeds:
  assumes "open_error env (request_filename (now_filename env)) = None"
    and "json_serializable (PDict (add_summary_and_metadata env rd))"
    and "case dict_get rd (ustr ''basic_info'') of
          None \<Rightarrow> True | Some (PDict b) \<Rightarrow> True | Some _ \<Rightarrow> False"
  shows "py_get (snd (snd (save_analytics_request env fs rd))) (ustr ''status'')
     = Some (PStr (ustr ''success''))"
  using assms by (simp add: save_status_success_iff)

text \<open>
  Claim C9. A successful call returns \<open>status\<close>, \<open>message\<close>, \<open>file_path\<close> and
  \<open>summary\<close>, the summary being \<open>Request type: \<close> and the request type, then
  \<open>, Requester: \<close> and the name in \<open>basic_info\<close>, each replaced by \<open>unknown\<close>
  when its key is missing; a missing key does not make the call fail.
\<close>

theorem save_success_result:
  "(py_get (snd (snd (save_analytics_request env fs rd))) (ustr ''status'')
      = Some (PStr (ustr ''success''))
    \<longrightarrow> (\<exists>requester.
          py_get_default
            (case dict_get rd (ustr ''basic_info'') of Some b \<Rightarrow> b | None \<Rightarrow> PDict [])
            (ustr ''name'') (PStr (ustr ''unknown'')) = Inr requester
        \<and> snd (snd (save_analytics_request env fs rd)) =
            PDict [
              (ustr ''status'', PStr (ustr ''success'')),
              (ustr ''message'',
                 PStr (ustr ''Analytics request saved successfully to ''
                       @ request_filename (now_filename env))),
              (ustr ''file_path'', PStr (request_filename (now_filename env))),
              (ustr ''summary'',
                 PStr (ustr ''Request type: ''
                       @ py_str env (case dict_get rd (ustr ''request_type'') of
                                        Some v \<Rightarrow> v | None \<Rightarrow> PStr (ustr ''unknown''))
                       @ ustr '', Requester: '' @ py_str env requester))]))
   \<and> (py_get (snd (snd (save_analytics_request env fs rd))) (ustr ''status'')
        = Some (PStr (ustr ''success''))
      \<longleftrightarrow> open_error env (request_filename (now_filename env)) = None
        \<and> json_serializable (PDict (add_summary_and_metadata env rd))
        \<and> (case dict_get rd (ustr ''basic_info'') of
             None \<Rightarrow> True | Some (PDict b) \<Rightarrow> True | Some _ \<Rightarrow> False))"
proof (intro conjI impI)
  assume "py_get (snd (snd (save_analytics_request env fs rd))) (ustr ''status'')
      = Some (PStr (ustr ''success''))"
  from save_success_cases [OF this] obtain jtext r where
    r: "save_success env (request_filename (now_filename env))
          (add_summary_and_metadata env rd) = Inr r"
    and s: "save_analytics_request env fs rd =
        (add_summary_and_metadata env rd,
         fs(request_filename (now_filename env) \<mapsto> Complete (utf8_encode jtext)), r)"
    by blast
  from r s show "\<exists>requester.
          py_get_default
            (case dict_get rd (ustr ''basic_info'') of Some b \<Rightarrow> b | None \<Rightarrow> PDict [])
            (ustr ''name'') (PStr (ustr ''unknown'')) = Inr requester
        \<and> snd (snd (save_analytics_request env fs rd)) =
            PDict [
              (ustr ''status'', PStr (ustr ''success'')),
              (ustr ''message'',
                 PStr (ustr ''Analytics request saved successfully to ''
                       @ request_filename (now_filename env))),
              (ustr ''file_path'', PStr (request_filename (now_filename env))),
              (ustr ''summary'',
                 PStr (ustr ''Request type: ''
                       @ py_str env (case dict_get rd (ustr ''request_type'') of
                                        Some v \<Rightarrow> v | None \<Rightarrow> PStr (ustr ''unknown''))
                       @ ustr '', Requester: '' @ py_str env requester))]"
    by (auto simp: save_success_def ebind_def add_summary_and_metadata_get
        split: option.splits sum.splits)
next
  show "py_get (snd (snd (save_analytics_request env fs rd))) (ustr ''status'')
        = Some (PStr (ustr ''success''))
      \<longleftrightarrow> open_error env (request_filename (now_filename env)) = None
        \<and> json_serializable (PDict (add_summary_and_metadata env rd))
        \<and> (case dict_get rd (ustr ''basic_info'') of
             None \<Rightarrow> True | Some (PDict b) \<Rightarrow> True | Some _ \<Rightarrow> False)"
    by (rule save_status_success_iff)
qed


lemma ustr_append: "ustr a @ ustr b = ustr (a @ b)"
  by (simp add: ustr_def)

lemma examples_serializable:
  "json_serializable (PDict (add_summary_and_metadata env_service_up []))"
  "json_serializable (PDict (add_summary_and_metadata env_service_up request_example))"
  "json_serializable (PDict (add_summary_and_metadata env_service_down request_example))"
  "json_serializable (PDict (add_summary_and_metadata env_service_down request_with_metadata))"
  by (simp_all add: add_summary_and_metadata_def summarize_analytics_request_def Let_def
      env_service_up_def env_service_down_def request_example_def request_with_metadata_def)

theorem save_success_result_witness:
  "snd (snd (save_analytics_request env_service_up Map.empty [])) =
     PDict [
       (ustr ''status'', PStr (ustr ''success'')),
       (ustr ''message'',
          PStr (ustr ''Analytics request saved successfully to analytics_request_20240506_070809.json'')),
       (ustr ''file_path'', PStr (ustr ''analytics_request_20240506_070809.json'')),
       (ustr ''summary'', PStr (ustr ''Request type: unknown, Requester: unknown''))]"
proof -
  have o: "open_error env_service_up (request_filename (now_filename env_service_up)) = None"
    by (simp add: env_service_up_def)
  have f: "request_filename (now_filename env_service_up)
      = ustr ''analytics_request_20240506_070809.json''"
    by (simp add: env_service_up_def request_filename_example)
  from save_success_result [of env_service_up Map.empty "[]"] o examples_serializable(1)
  show ?thesis
    by (simp add: dict_get_def f py_str_def ustr_append)
qed

text \<open>
  Claim C5. The file name is \<open>analytics_request_\<close>, the reading of the clock as
  \<open>YYYYMMDD_HHMMSS\<close>, and \<open>.json\<close>: it depends on the reading up to its second only.
  Two calls whose readings fall within the same second name the same file, and after a
  successful second call the file holds the document of the second call, whose result
  is an ordinary success.
\<close>

theorem save_filename_collision:
  "request_filename t =
      ustr ''analytics_request_'' @ zfill 4 (year t) @ zfill 2 (month t) @ zfill 2 (day t)
      @ ustr ''_'' @ zfill 2 (hour t) @ zfill 2 (minute t) @ zfill 2 (second t)
      @ ustr ''.json''
   \<and> (valid_datetime t \<and> 1000 \<le> year t \<longrightarrow> length (strftime_stamp t) = 15)
   \<and> (same_second t1 t2 \<longrightarrow> request_filename t1 = request_filename t2)
   \<and> (same_second (now_filename env1) (now_filename env2)
       \<and> save_analytics_request env1 fs rd1 = (rd1', fs1, r1)
       \<and> save_analytics_request env2 fs1 rd2 = (rd2', fs2, r2)
       \<and> py_get r2 (ustr ''status'') = Some (PStr (ustr ''success''))
      \<longrightarrow> py_get r2 (ustr ''file_path'') = Some (PStr (request_filename (now_filename env1)))
        \<and> (py_get r1 (ustr ''status'') = Some (PStr (ustr ''success'')) \<longrightarrow>
             py_get r1 (ustr ''file_path'')
               = Some (PStr (request_filename (now_filename env1))))
        \<and> (\<exists>jtext. json_value (codec_message env2) 0 (PDict rd2') = Inr jtext
             \<and> fs2 (request_filename (now_filename env1))
                 = Some (Complete (utf8_encode jtext))))"
proof (intro conjI impI)
  show "request_filename t =
      ustr ''analytics_request_'' @ zfill 4 (year t) @ zfill 2 (month t) @ zfill 2 (day t)
      @ ustr ''_'' @ zfill 2 (hour t) @ zfill 2 (minute t) @ zfill 2 (second t)
      @ ustr ''.json''"
    by (simp add: request_filename_def strftime_stamp_def)
next
  assume "valid_datetime t \<and> 1000 \<le> year t"
  then have "year t < 10 ^ 4" "month t < 10 ^ 2" "day t < 10 ^ 2" "hour t < 10 ^ 2"
    "minute t < 10 ^ 2" "second t < 10 ^ 2"
    by (auto simp: valid_datetime_def days_in_month_def split: if_splits)
  then have "length (zfill 4 (year t)) = 4" "length (zfill 2 (month t)) = 2"
    "length (zfill 2 (day t)) = 2" "length (zfill 2 (hour t)) = 2"
    "length (zfill 2 (minute t)) = 2" "length (zfill 2 (second t)) = 2"
    by (simp_all only: length_zfill zero_less_numeral)
  then show "length (strftime_stamp t) = 15"
    by (simp add: strftime_stamp_def ustr_def)
next
  assume "same_second t1 t2"
  then show "request_filename t1 = request_filename t2"
    by (simp add: same_second_def request_filename_def strftime_stamp_def)
next
  assume a: "same_second (now_filename env1) (now_filename env2)
       \<and> save_analytics_request env1 fs rd1 = (rd1', fs1, r1)
       \<and> save_analytics_request env2 fs1 rd2 = (rd2', fs2, r2)
       \<and> py_get r2 (ustr ''status'') = Some (PStr (ustr ''success''))"
  then have n: "request_filename (now_filename env2) = request_filename (now_filename env1)"
    by (simp add: same_second_def request_filename_def strftime_stamp_def)
  from a have "py_get (snd (snd (save_analytics_request env2 fs1 rd2))) (ustr ''status'')
      = Some (PStr (ustr ''success''))"
    by simp
  from save_success_cases [OF this] a obtain jtext where
    j: "json_value (codec_message env2) 0 (PDict rd2') = Inr jtext"
    and s: "save_success env2 (request_filename (now_filename env2))
        (add_summary_and_metadata env2 rd2) = Inr r2"
    and f: "fs2 = fs1(request_filename (now_filename env2) \<mapsto> Complete (utf8_encode jtext))"
    by auto
  from s show "py_get r2 (ustr ''file_path'') = Some (PStr (request_filename (now_filename env1)))"
    by (auto simp: save_success_def ebind_def dict_get_def n split: sum.splits)
  from j f n show "\<exists>jtext. json_value (codec_message env2) 0 (PDict rd2') = Inr jtext
             \<and> fs2 (request_filename (now_filename env1))
                 = Some (Complete (utf8_encode jtext))"
    by simp
next
  assume a: "same_second (now_filename env1) (now_filename env2)
       \<and> save_analytics_request env1 fs rd1 = (rd1', fs1, r1)
       \<and> save_analytics_request env2 fs1 rd2 = (rd2', fs2, r2)
       \<and> py_get r2 (ustr ''status'') = Some (PStr (ustr ''success''))"
  assume "py_get r1 (ustr ''status'') = Some (PStr (ustr ''success''))"
  with a have "py_get (snd (snd (save_analytics_request env1 fs rd1))) (ustr ''status'')
      = Some (PStr (ustr ''success''))"
    by simp
  from save_success_cases [OF this] a have
    "save_success env1 (request_filename (now_filename env1))
        (add_summary_and_metadata env1 rd1) = Inr r1"
    by auto
  then show "py_get r1 (ustr ''file_path'') = Some (PStr (request_filename (now_filename env1)))"
    by (auto simp: save_success_def ebind_def dict_get_def split: sum.splits)
qed


theorem save_filename_collision_witness:
  "py_get (snd (snd (save_analytics_request env_service_up Map.empty request_example)))
      (ustr ''file_path'') = Some (PStr (ustr ''analytics_request_20240506_070809.json''))
   \<and> py_get (snd (snd (save_analytics_request env_service_down
         (fst (snd (save_analytics_request env_service_up Map.empty request_example)))
         request_with_metadata)))
      (ustr ''file_path'') = Some (PStr (ustr ''analytics_request_20240506_070809.json''))
   \<and> (\<exists>jtext.
         json_value (\<lambda>s. []) 0
           (PDict (add_summary_and_metadata env_service_down request_with_metadata))
           = Inr jtext
       \<and> fst (snd (save_analytics_request env_service_down
           (fst (snd (save_analytics_request env_service_up Map.empty request_example)))
           request_with_metadata))
          (ustr ''analytics_request_20240506_070809.json'')
         = Some (Complete (utf8_encode jtext)))"
proof -
  let ?first = "save_analytics_request env_service_up Map.empty request_example"
  let ?second = "save_analytics_request env_service_down (fst (snd ?first))
      request_with_metadata"
  have c: "same_second (now_filename env_service_up) (now_filename env_service_down)"
    by (simp add: same_second_def env_service_up_def env_service_down_def clock_example_def
        clock_example_later_def)
  have s1: "py_get (snd (snd ?first)) (ustr ''status'') = Some (PStr (ustr ''success''))"
    by (rule save_succeeds [OF _ examples_serializable(2)])
      (simp_all add: env_service_up_def request_example_def dict_get_def)
  have s2: "py_get (snd (snd ?second)) (ustr ''status'') = Some (PStr (ustr ''success''))"
    by (rule save_succeeds [OF _ examples_serializable(4)])
      (simp_all add: env_service_down_def request_with_metadata_def dict_get_def)
  have f: "request_filename (now_filename env_service_up)
      = ustr ''analytics_request_20240506_070809.json''"
    by (simp add: env_service_up_def request_filename_example)
  have m: "codec_message env_service_down = (\<lambda>s. [])"
    by (simp add: env_service_down_def)
  have r: "fst ?second = add_summary_and_metadata env_service_down request_with_metadata"
    by (simp add: save_analytics_request_cases Let_def split: option.split sum.split)
  have e1: "?first = (fst ?first, fst (snd ?first), snd (snd ?first))"
    by simp
  have e2: "?second = (fst ?second, fst (snd ?second), snd (snd ?second))"
    by simp
  note collision = save_filename_collision [of clock_example clock_example clock_example
      env_service_up env_service_down Map.empty request_example
      "fst ?first" "fst (snd ?first)" "snd (snd ?first)"
      request_with_metadata "fst ?second" "fst (snd ?second)" "snd (snd ?second)",
      THEN conjunct2, THEN conjunct2, THEN conjunct2, rule_format,
      OF conjI [OF c conjI [OF e1 conjI [OF e2 s2]]]]
  from collision s1 show ?thesis
    by (simp add: f m r)
qed

text \<open>
  Claim C4. When the text-generation call raises, the summarization step returns the
  mapping \<open>status: error\<close>, \<open>message: Failed to generate summary: \<close> and the cause;
  the persister stores that mapping under \<open>request_summary\<close> and goes on: whether
  it succeeds depends on the write and on the result record only, and a successful call
  has written the record holding the mapping.
\<close>

theorem summarization_failure_is_stored:
  assumes "prompt_call env (summary_prompt (py_str env (PDict rd))) = Inl e"
  shows "summarize_analytics_request env (PDict rd) =
      PDict [(ustr ''status'', PStr (ustr ''error'')),
             (ustr ''message'', PStr (ustr ''Failed to generate summary: '' @ exc_str e))]
    \<and> dict_get (fst (save_analytics_request env fs rd)) (ustr ''request_summary'') =
        Some (PDict [(ustr ''status'', PStr (ustr ''error'')),
                     (ustr ''message'',
                      PStr (ustr ''Failed to generate summary: '' @ exc_str e))])
    \<and> (py_get (snd (snd (save_analytics_request env fs rd))) (ustr ''status'')
          = Some (PStr (ustr ''success''))
        \<longleftrightarrow> open_error env (request_filename (now_filename env)) = None
          \<and> json_serializable (PDict (fst (save_analytics_request env fs rd)))
          \<and> (case dict_get rd (ustr ''basic_info'') of
               None \<Rightarrow> True | Some (PDict b) \<Rightarrow> True | Some _ \<Rightarrow> False))
    \<and> (py_get (snd (snd (save_analytics_request env fs rd))) (ustr ''status'')
          = Some (PStr (ustr ''success''))
        \<longrightarrow> (\<exists>jtext.
              json_value (codec_message env) 0 (PDict (fst (save_analytics_request env fs rd)))
                = Inr jtext
            \<and> fst (snd (save_analytics_request env fs rd)) (request_filename (now_filename env))
                = Some (Complete (utf8_encode jtext))))"
proof -
  have r: "fst (save_analytics_request env fs rd) = add_summary_and_metadata env rd"
    by (simp add: save_analytics_request_cases Let_def split: option.split sum.split)
  have s: "summarize_analytics_request env (PDict rd) =
      PDict [(ustr ''status'', PStr (ustr ''error'')),
             (ustr ''message'', PStr (ustr ''Failed to generate summary: '' @ exc_str e))]"
    using assms by (simp add: summarize_analytics_request_def)
  have w: "\<exists>jtext.
        json_value (codec_message env) 0 (PDict (add_summary_and_metadata env rd)) = Inr jtext
      \<and> fst (snd (save_analytics_request env fs rd)) (request_filename (now_filename env))
          = Some (Complete (utf8_encode jtext))"
    if "py_get (snd (snd (save_analytics_request env fs rd))) (ustr ''status'')
          = Some (PStr (ustr ''success''))"
    using save_success_cases [OF that] by auto
  from s w show ?thesis
    by (simp add: r add_summary_and_metadata_get save_status_success_iff)
qed

theorem summarization_failure_is_stored_witness:
  "dict_get (fst (save_analytics_request env_service_down Map.empty request_example))
      (ustr ''request_summary'') =
     Some (PDict [(ustr ''status'', PStr (ustr ''error'')),
                  (ustr ''message'',
                   PStr (ustr ''Failed to generate summary: 503 UNAVAILABLE''))])
   \<and> py_get (snd (snd (save_analytics_request env_service_down Map.empty request_example)))
        (ustr ''status'') = Some (PStr (ustr ''success''))"
proof -
  have p: "prompt_call env_service_down
      (summary_prompt (py_str env_service_down (PDict request_example)))
      = Inl (PyExc (ustr ''ServerError'') (ustr ''503 UNAVAILABLE''))"
    by (simp add: env_service_down_def)
  have r: "fst (save_analytics_request env_service_down Map.empty request_example)
      = add_summary_and_metadata env_service_down request_example"
    by (simp add: save_analytics_request_cases Let_def split: option.split sum.split)
  have o: "open_error env_service_down (request_filename (now_filename env_service_down)) = None"
    by (simp add: env_service_down_def)
  have b: "dict_get request_example (ustr ''basic_info'')
      = Some (PDict [(ustr ''name'', PStr (ustr ''Ann''))])"
    by (simp add: request_example_def dict_get_def)
  from summarization_failure_is_stored [OF p, of Map.empty] examples_serializable(3)
  show ?thesis
    by (simp add: r o b ustr_append)
qed


text \<open>
  Claim C3, as amended. No exception leaves the persister. An exception of the file
  write (the file cannot be opened, or the encoder raises) or of the \<open>return\<close>
  statement is caught by the handler of the persister and becomes
  \<open>status: error\<close>, \<open>message: Failed to save request: \<close> and the cause; an unwritable
  target leaves the file system as it was. An exception of the text-generation call
  never reaches that handler: the summarization step catches it and returns its own
  error mapping. Every result is a success or such an error.
\<close>

theorem save_catches_exceptions:
  "(\<forall>e. snd (snd (save_try env fs rd)) = Inl e \<longrightarrow>
        snd (snd (save_analytics_request env fs rd)) =
          PDict [(ustr ''status'', PStr (ustr ''error'')),
                 (ustr ''message'', PStr (ustr ''Failed to save request: '' @ exc_str e))])
   \<and> (\<forall>e. open_error env (request_filename (now_filename env)) = Some e \<longrightarrow>
        snd (save_analytics_request env fs rd) = (fs, save_error e))
   \<and> (\<forall>e. open_error env (request_filename (now_filename env)) = None
          \<and> json_value (codec_message env) 0 (PDict (add_summary_and_metadata env rd)) = Inl e
        \<longrightarrow> snd (save_analytics_request env fs rd) =
              (fs(request_filename (now_filename env) \<mapsto> Incomplete), save_error e))
   \<and> (\<forall>e. prompt_call env (summary_prompt (py_str env (PDict rd))) = Inl e \<longrightarrow>
        summarize_analytics_request env (PDict rd) =
          PDict [(ustr ''status'', PStr (ustr ''error'')),
                 (ustr ''message'', PStr (ustr ''Failed to generate summary: '' @ exc_str e))])
   \<and> (py_get (snd (snd (save_analytics_request env fs rd))) (ustr ''status'')
         = Some (PStr (ustr ''success''))
       \<or> (\<exists>e. snd (snd (save_try env fs rd)) = Inl e
            \<and> snd (snd (save_analytics_request env fs rd)) = save_error e))"
proof (intro conjI allI impI)
  fix e
  assume "snd (snd (save_try env fs rd)) = Inl e"
  then show "snd (snd (save_analytics_request env fs rd)) =
          PDict [(ustr ''status'', PStr (ustr ''error'')),
                 (ustr ''message'', PStr (ustr ''Failed to save request: '' @ exc_str e))]"
    by (cases "save_try env fs rd") (simp add: save_analytics_request_def save_error_def)
next
  fix e
  assume "open_error env (request_filename (now_filename env)) = Some e"
  then show "snd (save_analytics_request env fs rd) = (fs, save_error e)"
    by (simp add: save_analytics_request_cases Let_def)
next
  fix e
  assume "open_error env (request_filename (now_filename env)) = None
          \<and> json_value (codec_message env) 0 (PDict (add_summary_and_metadata env rd)) = Inl e"
  then show "snd (save_analytics_request env fs rd) =
              (fs(request_filename (now_filename env) \<mapsto> Incomplete), save_error e)"
    by (simp add: save_analytics_request_cases Let_def)
next
  fix e
  assume "prompt_call env (summary_prompt (py_str env (PDict rd))) = Inl e"
  then show "summarize_analytics_request env (PDict rd) =
          PDict [(ustr ''status'', PStr (ustr ''error'')),
                 (ustr ''message'', PStr (ustr ''Failed to generate summary: '' @ exc_str e))]"
    by (simp add: summarize_analytics_request_def)
next
  obtain rd' fs' x where t: "save_try env fs rd = (rd', fs', x)"
    by (cases "save_try env fs rd") auto
  show "py_get (snd (snd (save_analytics_request env fs rd))) (ustr ''status'')
         = Some (PStr (ustr ''success''))
       \<or> (\<exists>e. snd (snd (save_try env fs rd)) = Inl e
            \<and> snd (snd (save_analytics_request env fs rd)) = save_error e)"
  proof (cases x)
    case (Inl e)
    with t show ?thesis
      by (simp add: save_analytics_request_def)
  next
    case (Inr r)
    with t have "save_success env (request_filename (now_filename env))
        (add_summary_and_metadata env rd) = Inr r"
      by (auto simp: save_try_def Let_def split: prod.splits sum.splits)
    from save_success_status [OF this] t Inr show ?thesis
      by (simp add: save_analytics_request_def)
  qed
qed

theorem save_catches_exceptions_witness:
  "save_analytics_request env_read_only Map.empty [] =
     ([(ustr ''request_summary'', PStr (ustr ''A sales report.'')),
       (ustr ''metadata'',
        PDict [(ustr ''created_at'', PStr (ustr ''2024-05-06T07:08:09.000123'')),
               (ustr ''status'', PStr (ustr ''pending_review''))])],
      Map.empty,
      PDict [(ustr ''status'', PStr (ustr ''error'')),
             (ustr ''message'',
              PStr (ustr ''Failed to save request: [Errno 13] Permission denied''))])"
proof -
  have o: "open_error env_read_only (request_filename (now_filename env_read_only))
      = Some (PyExc (ustr ''PermissionError'') (ustr ''[Errno 13] Permission denied''))"
    by (simp add: env_read_only_def)
  have r: "fst (save_analytics_request env_read_only Map.empty []) =
      [(ustr ''request_summary'', PStr (ustr ''A sales report.'')),
       (ustr ''metadata'',
        PDict [(ustr ''created_at'', PStr (ustr ''2024-05-06T07:08:09.000123'')),
               (ustr ''status'', PStr (ustr ''pending_review''))])]"
    by (simp add: save_analytics_request_cases Let_def add_summary_and_metadata_def
        summarize_analytics_request_def env_read_only_def isoformat_clock_example)
  from save_catches_exceptions [of env_read_only Map.empty "[]", THEN conjunct2,
      THEN conjunct1, rule_format, OF o] r
  show ?thesis
    by (cases "save_analytics_request env_read_only Map.empty []")
      (simp add: save_error_def ustr_append)
qed

text \<open>
  Claim C3 as stated fails for an exception raised during summarization: with the
  text-generation service down and a writable directory, the exception is not
  converted to the error result of the persister. The call succeeds.
\<close>

theorem save_summarization_exception_counterexample:
  "prompt_call env_service_down
      (summary_prompt (py_str env_service_down (PDict request_example)))
     = Inl (PyExc (ustr ''ServerError'') (ustr ''503 UNAVAILABLE''))
   \<and> snd (snd (save_analytics_request env_service_down Map.empty request_example)) \<noteq>
       PDict [(ustr ''status'', PStr (ustr ''error'')),
              (ustr ''message'', PStr (ustr ''Failed to save request: 503 UNAVAILABLE''))]
   \<and> py_get (snd (snd (save_analytics_request env_service_down Map.empty request_example)))
        (ustr ''status'') = Some (PStr (ustr ''success''))"
proof -
  have s: "py_get (snd (snd (save_analytics_request env_service_down Map.empty
      request_example))) (ustr ''status'') = Some (PStr (ustr ''success''))"
    by (rule save_succeeds [OF _ examples_serializable(3)])
      (simp_all add: env_service_down_def request_example_def dict_get_def)
  then have "snd (snd (save_analytics_request env_service_down Map.empty request_example)) \<noteq>
       PDict [(ustr ''status'', PStr (ustr ''error'')),
              (ustr ''message'', PStr (ustr ''Failed to save request: 503 UNAVAILABLE''))]"
    by (auto simp: dict_get_def)
  with s show ?thesis
    by (simp add: env_service_down_def)
qed

text \<open>
  Two failures of the persister, evaluated. A value that is not JSON serialisable: the
  encoder raises after the file was opened, the file is left incomplete and the result
  is the error record. A \<open>basic_info\<close> that is not a mapping: the file is written,
  then the \<open>return\<close> statement raises and the result is the error record all the same.
\<close>

lemma save_unserializable_example:
  "snd (save_analytics_request env_service_up Map.empty [(ustr ''tags'', PObject (ustr ''set''))])
     = ([ustr ''analytics_request_20240506_070809.json'' \<mapsto> Incomplete],
        PDict [(ustr ''status'', PStr (ustr ''error'')),
               (ustr ''message'',
                PStr (ustr ''Failed to save request: Object of type set is not JSON serializable''))])"
proof -
  have u: "add_summary_and_metadata env_service_up [(ustr ''tags'', PObject (ustr ''set''))] =
      [(ustr ''tags'', PObject (ustr ''set'')),
       (ustr ''request_summary'', PStr (ustr ''A sales report.'')),
       (ustr ''metadata'',
        PDict [(ustr ''created_at'', PStr (ustr ''2024-05-06T07:08:09.000123'')),
               (ustr ''status'', PStr (ustr ''pending_review''))])]"
    by (simp add: add_summary_and_metadata_def summarize_analytics_request_def Let_def
        env_service_up_def isoformat_clock_example)
  have j: "json_value (\<lambda>s. []) 0 (PDict [(ustr ''tags'', PObject (ustr ''set'')),
       (ustr ''request_summary'', PStr (ustr ''A sales report.'')),
       (ustr ''metadata'',
        PDict [(ustr ''created_at'', PStr (ustr ''2024-05-06T07:08:09.000123'')),
               (ustr ''status'', PStr (ustr ''pending_review''))])])
      = Inl (not_serializable (ustr ''set''))"
    by (simp add: ebind_def emit_str_def)
  have e: "\<And>f. open_error env_service_up f = None"
    "request_filename (now_filename env_service_up)
      = ustr ''analytics_request_20240506_070809.json''"
    "codec_message env_service_up = (\<lambda>s. [])"
    by (simp_all add: env_service_up_def request_filename_example)
  have "snd (save_analytics_request env_service_up Map.empty
      [(ustr ''tags'', PObject (ustr ''set''))])
     = ([ustr ''analytics_request_20240506_070809.json'' \<mapsto> Incomplete],
        save_error (not_serializable (ustr ''set'')))"
    by (simp add: save_analytics_request_cases Let_def u j e del: json_value.simps)
  then show ?thesis
    by (simp add: save_error_def not_serializable_def ustr_append)
qed

lemma save_basic_info_example:
  "py_get (snd (snd (save_analytics_request env_service_up Map.empty
      [(ustr ''basic_info'', PStr (ustr ''Ann''))]))) (ustr ''message'')
     = Some (PStr (ustr ''Failed to save request: '' @ [39] @ ustr ''str'' @ [39]
                   @ ustr '' object has no attribute '' @ [39] @ ustr ''get'' @ [39]))
   \<and> (\<exists>bytes. fst (snd (save_analytics_request env_service_up Map.empty
        [(ustr ''basic_info'', PStr (ustr ''Ann''))]))
        (ustr ''analytics_request_20240506_070809.json'') = Some (Complete bytes))"
proof -
  have s: "json_serializable (PDict (add_summary_and_metadata env_service_up
      [(ustr ''basic_info'', PStr (ustr ''Ann''))]))"
    by (simp add: add_summary_and_metadata_def summarize_analytics_request_def Let_def
        env_service_up_def)
  then obtain jtext where "json_value (codec_message env_service_up) 0
      (PDict (add_summary_and_metadata env_service_up [(ustr ''basic_info'', PStr (ustr ''Ann''))]))
      = Inr jtext"
    using json_value_serializable(1) by blast
  moreover have "\<And>f. open_error env_service_up f = None"
    "request_filename (now_filename env_service_up)
      = ustr ''analytics_request_20240506_070809.json''"
    by (simp_all add: env_service_up_def request_filename_example)
  moreover have "dict_get (add_summary_and_metadata env_service_up
      [(ustr ''basic_info'', PStr (ustr ''Ann''))]) (ustr ''basic_info'')
      = Some (PStr (ustr ''Ann''))"
    by (simp add: add_summary_and_metadata_get) (simp add: dict_get_def)
  then have "save_success env_service_up (ustr ''analytics_request_20240506_070809.json'')
      (add_summary_and_metadata env_service_up [(ustr ''basic_info'', PStr (ustr ''Ann''))])
      = Inl (no_attribute (PStr (ustr ''Ann'')) ''get'')"
    by (simp add: save_success_def ebind_def)
  ultimately show ?thesis
    by (simp add: save_analytics_request_cases Let_def)
      (simp add: save_error_def no_attribute_def dict_get_def)
qed

section \<open>Properties of the reader\<close>

lemma div_mod_scaled:
  fixes q b k :: nat
  shows "q div b * (b * k) + q mod b * k = q * k"
proof -
  have "(q div b * b + q mod b) * k = q * k"
    by (simp only: div_mult_mod_eq)
  then show ?thesis
    by (simp only: add_mult_distrib mult.assoc)
qed

lemma split2: "(c::nat) div 0x40 * 0x40 + c mod 0x40 = c"
  by simp

lemma split3:
  "(c::nat) div 0x1000 * 0x1000 + c div 0x40 mod 0x40 * 0x40 + c mod 0x40 = c"
proof -
  have "c div 0x1000 = c div 0x40 div 0x40"
    by (simp only: div_mult2_eq [symmetric]) simp
  then have "c div 0x1000 * 0x1000 + c div 0x40 mod 0x40 * 0x40 = c div 0x40 * 0x40"
    using div_mod_scaled [of "c div 0x40" "0x40" "0x40"] by simp
  then show ?thesis
    by simp
qed

lemma split4:
  "(c::nat) div 0x40000 * 0x40000 + c div 0x1000 mod 0x40 * 0x1000 + c div 0x40 mod 0x40 * 0x40
     + c mod 0x40 = c"
proof -
  have "c div 0x40000 = c div 0x1000 div 0x40"
    by (simp only: div_mult2_eq [symmetric]) simp
  then have "c div 0x40000 * 0x40000 + c div 0x1000 mod 0x40 * 0x1000 = c div 0x1000 * 0x1000"
    using div_mod_scaled [of "c div 0x1000" "0x40" "0x1000"] by simp
  then show ?thesis
    using split3 [of c] by simp
qed


lemma lead_byte2: "(c::nat) < 0x800 \<Longrightarrow> c div 0x40 < 0x20"
  by (simp add: less_mult_imp_div_less)

lemma lead_byte3: "(c::nat) < 0x10000 \<Longrightarrow> c div 0x1000 < 0x10"
  by (simp add: less_mult_imp_div_less)

lemma lead_byte4: "(c::nat) \<le> 0x10FFFF \<Longrightarrow> c div 0x40000 < 0x8"
  by (simp add: less_mult_imp_div_less)


lemma utf8_decode_char:
  assumes "utf8_encodable c"
  shows "utf8_decode (utf8_char c @ bs) = map_option ((#) c) (utf8_decode bs)"
proof -
  consider "c < 0x80" | "0x80 \<le> c" "c < 0x800" | "0x800 \<le> c" "c < 0x10000"
    | "0x10000 \<le> c" "c \<le> 0x10FFFF"
    using assms unfolding utf8_encodable_def by linarith
  then show ?thesis
  proof cases
    case 1
    then show ?thesis by (simp add: utf8_char_def)
  next
    case 2
    with split2 [of c] show ?thesis
      by (simp add: utf8_char_def continuation_def lead_byte2)
  next
    case 3
    with split3 [of c] assms show ?thesis
      by (simp add: utf8_char_def continuation_def lead_byte3)
  next
    case 4
    with split4 [of c] assms show ?thesis
      by (simp add: utf8_char_def continuation_def lead_byte4)
  qed
qed

lemma utf8_decode_encode:
  "list_all utf8_encodable s \<Longrightarrow> utf8_decode (utf8_encode s) = Some s"
  by (induction s) (simp_all add: utf8_encode_def utf8_decode_char)

subsection \<open>Strings\<close>

lemma hex_value_hex_digit: "d < 16 \<Longrightarrow> hex_value (hex_digit d) = Some d"
  by (auto simp: hex_value_def hex_digit_def)

lemma hex4_control: "c < 32 \<Longrightarrow> hex4 48 48 (hex_digit (c div 16)) (hex_digit (c mod 16)) = Some c"
proof -
  assume c: "c < 32"
  then have "c div 16 < 16" by simp
  then have "hex_value (hex_digit (c div 16)) = Some (c div 16)"
    by (rule hex_value_hex_digit)
  moreover have "hex_value (hex_digit (c mod 16)) = Some (c mod 16)"
    by (rule hex_value_hex_digit) simp
  moreover have "hex_value 48 = Some 0"
    by (simp add: hex_value_def)
  ultimately show ?thesis
    using c by (simp add: hex4_def)
qed

lemma read_string_escape:
  "read_string (json_escape_char c @ s) acc = read_string s (c # acc)"
proof -
  consider "c = 34" | "c = 92" | "c = 8" | "c = 12" | "c = 10" | "c = 13" | "c = 9"
    | "c < 32" "c \<noteq> 8" "c \<noteq> 12" "c \<noteq> 10" "c \<noteq> 13" "c \<noteq> 9"
    | "32 \<le> c" "c \<noteq> 34" "c \<noteq> 92"
    by linarith
  then show ?thesis
  proof cases
    case 8
    then show ?thesis
      by (simp add: json_escape_char_def ustr_def hex4_control)
  next
    case 9
    then show ?thesis
      by (simp add: json_escape_char_def)
  qed (simp_all add: json_escape_char_def ustr_def unescape_def)
qed

lemma read_string_body:
  "read_string (concat (map json_escape_char s) @ 34 # rest) acc = Some (rev acc @ s, rest)"
  by (induction s arbitrary: acc) (simp_all add: read_string_escape)

lemma read_value_string:
  "read_value (Suc n) (encode_basestring s @ rest) = Some (PStr s, rest)"
  by (simp add: encode_basestring_def read_string_body)


subsection \<open>Numbers\<close>

lemma digits_not_Nil [simp]: "digits n \<noteq> []"
  by (cases "n < 10") (simp_all add: digits.simps [of n])

lemma digits_all_digit: "list_all is_digit (digits n)"
proof (induction n rule: digits.induct)
  case (1 n)
  then show ?case
    by (cases "n < 10") (simp_all add: digits.simps [of n] is_digit_def)
qed

lemma hd_digits_nonzero: "0 < n \<Longrightarrow> hd (digits n) \<noteq> 48"
proof (induction n rule: digits.induct)
  case (1 n)
  show ?case
  proof (cases "n < 10")
    case True
    with "1.prems" show ?thesis by (simp add: digits.simps [of n])
  next
    case False
    then have "0 < n div 10" by simp
    with "1.IH" False have "hd (digits (n div 10)) \<noteq> 48" by simp
    with False show ?thesis by (simp add: digits.simps [of n])
  qed
qed

lemma length_digits_one: "n < 10 \<Longrightarrow> length (digits n) = 1"
  by (simp add: digits.simps [of n])

lemma digits_no_leading_zero: "\<not> (1 < length (digits n) \<and> hd (digits n) = 48)"
proof (cases "n = 0")
  case True
  then show ?thesis by (simp add: length_digits_one)
next
  case False
  then show ?thesis using hd_digits_nonzero [of n] by simp
qed

lemma takeWhile_digits:
  "follow_ok rest \<Longrightarrow> takeWhile is_digit (digits n @ rest) = digits n"
  using digits_all_digit [of n]
  by (cases rest) (auto simp: follow_ok_def list_all_iff is_digit_def takeWhile_append2)

lemma dropWhile_digits:
  "follow_ok rest \<Longrightarrow> dropWhile is_digit (digits n @ rest) = rest"
  using digits_all_digit [of n]
  by (cases rest) (auto simp: follow_ok_def list_all_iff is_digit_def dropWhile_append2)

lemma hd_digits_digit: "is_digit (hd (digits n))"
  using digits_all_digit [of n] digits_not_Nil [of n]
  by (cases "digits n") (simp_all del: digits_not_Nil)

lemma read_number_digits:
  assumes "follow_ok rest"
  shows "read_number (digits n @ rest) = Some (PInt (int n), rest)"
proof -
  have h: "hd (digits n @ rest) \<noteq> 45"
    using hd_digits_digit [of n] by (simp add: is_digit_def)
  have f: "\<not> (rest \<noteq> [] \<and> (hd rest = 46 \<or> hd rest = 101 \<or> hd rest = 69))"
    using assms by (auto simp: follow_ok_def)
  show ?thesis
    using h f digits_no_leading_zero [of n]
    by (simp add: read_number_def Let_def takeWhile_digits [OF assms]
        dropWhile_digits [OF assms] read_digits_digits)
qed

lemma read_number_negative:
  assumes "follow_ok rest"
  shows "read_number (45 # digits n @ rest) = Some (PInt (- int n), rest)"
proof -
  have f: "\<not> (rest \<noteq> [] \<and> (hd rest = 46 \<or> hd rest = 101 \<or> hd rest = 69))"
    using assms by (auto simp: follow_ok_def)
  show ?thesis
    using f digits_no_leading_zero [of n]
    by (simp add: read_number_def Let_def takeWhile_digits [OF assms]
        dropWhile_digits [OF assms] read_digits_digits)
qed

lemma read_number_show_int:
  "follow_ok rest \<Longrightarrow> read_number (show_int i @ rest) = Some (PInt i, rest)"
  by (simp add: show_int_def read_number_digits read_number_negative)

lemma show_int_head:
  "show_int i \<noteq> [] \<and> (hd (show_int i) = 45 \<or> is_digit (hd (show_int i)))"
  using hd_digits_digit by (simp add: show_int_def)

lemma read_value_int:
  assumes "follow_ok rest"
  shows "read_value (Suc n) (show_int i @ rest) = Some (PInt i, rest)"
proof -
  obtain c r where s: "show_int i = c # r" and c: "c = 45 \<or> is_digit c"
    using show_int_head [of i] by (cases "show_int i") auto
  from c have "c \<noteq> 34" "c \<noteq> 91" "c \<noteq> 123" "c \<noteq> 110" "c \<noteq> 116" "c \<noteq> 102"
    by (auto simp: is_digit_def)
  then have "read_value (Suc n) ((c # r) @ rest) = read_number ((c # r) @ rest)"
    by simp
  with s read_number_show_int [OF assms, of i] show ?thesis
    by simp
qed


subsection \<open>Lists and dictionaries\<close>

lemma value_start_simps:
  "value_start c \<Longrightarrow> \<not> json_space c"
  "value_start c \<Longrightarrow> c \<noteq> 93"
  "value_start c \<Longrightarrow> c \<noteq> 125"
  by (auto simp: value_start_def json_space_def is_digit_def)

lemma skip_ws_newline_indent [simp]: "skip_ws (newline_indent l @ s) = skip_ws s"
  by (simp add: skip_ws_def newline_indent_def json_space_def dropWhile_append)

lemma skip_ws_start: "value_start c \<Longrightarrow> skip_ws (c # s) = c # s"
  by (simp add: skip_ws_def value_start_simps)

lemma skip_ws_punct [simp]:
  "skip_ws (44 # s) = 44 # s" "skip_ws (93 # s) = 93 # s" "skip_ws (125 # s) = 125 # s"
  "skip_ws (58 # s) = 58 # s" "skip_ws (32 # s) = skip_ws s" "skip_ws [] = []"
  by (simp_all add: skip_ws_def json_space_def)

lemma emit_str_head: "emit_str codec s = Inr t \<Longrightarrow> \<exists>r. t = 34 # r"
  by (auto simp: emit_str_def encode_basestring_def split: if_splits)

lemma json_value_head:
  "json_value codec l v = Inr t \<Longrightarrow> \<exists>c r. t = c # r \<and> value_start c"
proof (cases v)
  case (PInt i)
  assume "json_value codec l v = Inr t"
  with PInt show ?thesis
    using show_int_head [of i] by (cases "show_int i") (auto simp: value_start_def)
next
  case (PStr s)
  assume "json_value codec l v = Inr t"
  with PStr show ?thesis
    using emit_str_head [of codec s t] by (auto simp: value_start_def)
next
  case (PList xs)
  assume "json_value codec l v = Inr t"
  with PList show ?thesis
    by (cases xs) (auto simp: value_start_def ebind_def ustr_def split: sum.splits)
next
  case (PDict kvs)
  assume "json_value codec l v = Inr t"
  with PDict show ?thesis
    by (cases kvs) (auto simp: value_start_def ebind_def ustr_def split: sum.splits)
qed (auto simp: value_start_def ustr_def)

lemma json_items_head:
  assumes "xs \<noteq> []" and "json_items codec l xs = Inr t"
  shows "\<exists>c r. t = c # r \<and> value_start c"
proof -
  from assms(1) obtain x ys where xs: "xs = x # ys"
    by (cases xs) auto
  show ?thesis
  proof (cases ys)
    case Nil
    with xs assms(2) show ?thesis
      using json_value_head [of codec l x t] by simp
  next
    case (Cons y zs)
    with xs assms(2) obtain a b where
      "json_value codec l x = Inr a" "t = a @ ustr '','' @ newline_indent l @ b"
      by (auto simp: ebind_def split: sum.splits)
    with json_value_head [of codec l x a] show ?thesis
      by auto
  qed
qed

lemma json_pairs_head:
  assumes "kvs \<noteq> []" and "json_pairs codec l kvs = Inr t"
  shows "\<exists>r. t = 34 # r"
proof -
  from assms(1) obtain k v ys where kvs: "kvs = (k, v) # ys"
    by (cases kvs) auto
  show ?thesis
  proof (cases ys)
    case Nil
    with kvs assms(2) obtain a b where "emit_str codec k = Inr a" "t = a @ ustr '': '' @ b"
      by (auto simp: ebind_def split: sum.splits)
    with emit_str_head [of codec k a] show ?thesis
      by auto
  next
    case (Cons y zs)
    with kvs assms(2) obtain a b where "emit_str codec k = Inr a" "t = a @ b"
      by (auto simp: ebind_def split: sum.splits)
    with emit_str_head [of codec k a] show ?thesis
      by auto
  qed
qed


lemma dict_set_fresh: "k \<notin> fst ` set d \<Longrightarrow> dict_set d k v = d @ [(k, v)]"
  by (induction d) auto

lemma foldl_dict_set:
  "distinct (map fst (d @ kvs)) \<Longrightarrow> foldl (\<lambda>d (k, v). dict_set d k v) d kvs = d @ kvs"
proof (induction kvs arbitrary: d)
  case Nil
  then show ?case by simp
next
  case (Cons kv kvs)
  obtain k v where kv: "kv = (k, v)" by (cases kv)
  from Cons.prems kv have f: "k \<notin> fst ` set d" by auto
  from Cons.prems kv have "distinct (map fst ((d @ [(k, v)]) @ kvs))" by auto
  from Cons.IH [OF this] kv f show ?case
    by (simp add: dict_set_fresh)
qed

lemma dict_of_pairs_distinct: "distinct (map fst kvs) \<Longrightarrow> dict_of_pairs kvs = kvs"
  using foldl_dict_set [of "[]" kvs] by (simp add: dict_of_pairs_def)

lemma follow_ok_simps [simp]:
  "follow_ok []" "follow_ok (44 # s)" "follow_ok (newline_indent m @ s)"
  by (simp_all add: follow_ok_def newline_indent_def)

lemma read_back:
  "json_value codec level v = Inr t \<Longrightarrow> distinct_keys v \<Longrightarrow> follow_ok rest
     \<Longrightarrow> read_fuel v \<le> n \<Longrightarrow> read_value n (t @ rest) = Some (v, rest)"
  "xs \<noteq> [] \<Longrightarrow> json_items codec level xs = Inr t \<Longrightarrow> distinct_keys_items xs
     \<Longrightarrow> read_fuel_items xs \<le> n
     \<Longrightarrow> read_items n (t @ newline_indent m @ 93 # rest) = Some (xs, rest)"
  "kvs \<noteq> [] \<Longrightarrow> json_pairs codec level kvs = Inr t \<Longrightarrow> distinct_keys_pairs kvs
     \<Longrightarrow> read_fuel_pairs kvs \<le> n
     \<Longrightarrow> read_pairs n (t @ newline_indent m @ 125 # rest) = Some (kvs, rest)"
proof (induction codec level v and codec level xs and codec level kvs
    arbitrary: t rest n and t rest n m and t rest n m
    rule: json_value_json_items_json_pairs.induct)
  case (1 codec level)
  then show ?case
    by (cases n) (auto simp: ustr_def expect_word_def)
next
  case (2 codec level b)
  then show ?case
    by (cases n) (auto simp: ustr_def expect_word_def)
next
  case (3 codec level i)
  then show ?case
    by (cases n) (auto simp: read_value_int)
next
  case (4 codec level s)
  then show ?case
    by (cases n) (auto simp: emit_str_def read_value_string split: if_splits)
next
  case (5 codec level)
  then show ?case
    by (cases n) (auto simp: ustr_def)
next
  case (6 codec level x xs)
  from "6.prems"(1) obtain body where
    b: "json_items codec (Suc level) (x # xs) = Inr body"
    and t: "t = 91 # newline_indent (Suc level) @ body @ newline_indent level @ [93]"
    by (auto simp: ebind_def ustr_def split: sum.splits)
  from "6.prems"(4) obtain n' where n: "n = Suc n'" and f: "read_fuel_items (x # xs) \<le> n'"
    by (cases n) auto
  from json_items_head [OF _ b] obtain c r where c: "body = c # r" "value_start c"
    by auto
  have "read_items n' (body @ newline_indent level @ 93 # rest) = Some (x # xs, rest)"
    using "6.IH" [OF _ b _ f] "6.prems"(2) by simp
  with c show ?case
    by (simp add: t n skip_ws_start value_start_simps)
next
  case (7 codec level)
  then show ?case
    by (cases n) (auto simp: ustr_def)
next
  case (8 codec level kv kvs)
  from "8.prems"(1) obtain body where
    b: "json_pairs codec (Suc level) (kv # kvs) = Inr body"
    and t: "t = 123 # newline_indent (Suc level) @ body @ newline_indent level @ [125]"
    by (auto simp: ebind_def ustr_def split: sum.splits)
  from "8.prems"(4) obtain n' where n: "n = Suc n'" and f: "read_fuel_pairs (kv # kvs) \<le> n'"
    by (cases n) auto
  from json_pairs_head [OF _ b] obtain r where c: "body = 34 # r"
    by auto
  have "read_pairs n' (body @ newline_indent level @ 125 # rest) = Some (kv # kvs, rest)"
    using "8.IH" [OF _ b _ f] "8.prems"(2) by simp
  moreover have "dict_of_pairs (kv # kvs) = kv # kvs"
    using "8.prems"(2) by (intro dict_of_pairs_distinct) simp
  moreover have "skip_ws (34 # r @ newline_indent level @ 125 # rest)
      = 34 # r @ newline_indent level @ 125 # rest"
    by (simp add: skip_ws_start value_start_def)
  ultimately show ?case
    using c by (simp add: t n)
next
  case (9 codec level tn)
  then show ?case by simp
next
  case (10 codec level)
  then show ?case by simp
next
  case (11 codec level x)
  from "11.prems"(4) obtain n' where n: "n = Suc n'" and f: "read_fuel x \<le> n'"
    by (cases n) auto
  have "read_value n' (t @ newline_indent m @ 93 # rest)
      = Some (x, newline_indent m @ 93 # rest)"
    using "11.IH" [OF _ _ _ f, of t "newline_indent m @ 93 # rest"] "11.prems" by simp
  then show ?case
    by (simp add: n)
next
  case (12 codec level x y ys)
  from "12.prems"(2) obtain a b where
    a: "json_value codec level x = Inr a"
    and b: "json_items codec level (y # ys) = Inr b"
    and t: "t = a @ 44 # newline_indent level @ b"
    by (auto simp: ebind_def ustr_def split: sum.splits)
  from "12.prems"(4) obtain n' where n: "n = Suc n'" and fx: "read_fuel x \<le> n'"
    and fy: "read_fuel_items (y # ys) \<le> n'"
    by (cases n) auto
  from json_items_head [OF _ b] obtain c r where c: "b = c # r" "value_start c"
    by auto
  have "read_value n' (a @ 44 # newline_indent level @ b @ newline_indent m @ 93 # rest)
      = Some (x, 44 # newline_indent level @ b @ newline_indent m @ 93 # rest)"
    using "12.IH"(1) [OF a _ _ fx] "12.prems"(3) by simp
  moreover have "read_items n' (b @ newline_indent m @ 93 # rest) = Some (y # ys, rest)"
    using "12.IH"(2) [OF _ b _ fy] "12.prems"(3) by simp
  moreover have "skip_ws (b @ newline_indent m @ 93 # rest) = b @ newline_indent m @ 93 # rest"
    using c by (simp add: skip_ws_start)
  ultimately show ?case
    by (simp add: t n)
next
  case (13 codec level)
  then show ?case by simp
next
  case (14 codec level k v)
  from "14.prems"(2) obtain b where
    k: "list_all utf8_encodable k"
    and b: "json_value codec level v = Inr b"
    and t: "t = encode_basestring k @ 58 # 32 # b"
    by (auto simp: ebind_def ustr_def emit_str_def split: sum.splits if_splits)
  from "14.prems"(4) obtain n' where n: "n = Suc n'" and f: "read_fuel v \<le> n'"
    by (cases n) auto
  from json_value_head [OF b] obtain c r where c: "b = c # r" "value_start c"
    by auto
  have "read_value n' (b @ newline_indent m @ 125 # rest)
      = Some (v, newline_indent m @ 125 # rest)"
    using "14.IH" [OF b _ _ f] "14.prems"(3) by simp
  moreover have "skip_ws (b @ newline_indent m @ 125 # rest) = b @ newline_indent m @ 125 # rest"
    using c by (simp add: skip_ws_start)
  ultimately show ?case
    by (simp add: t n encode_basestring_def read_string_body)
next
  case (15 codec level k v kv kvs)
  from "15.prems"(2) obtain b c where
    b: "json_value codec level v = Inr b"
    and c: "json_pairs codec level (kv # kvs) = Inr c"
    and t: "t = encode_basestring k @ 58 # 32 # b @ 44 # newline_indent level @ c"
    by (auto simp: ebind_def ustr_def emit_str_def split: sum.splits if_splits)
  from "15.prems"(4) obtain n' where n: "n = Suc n'" and fv: "read_fuel v \<le> n'"
    and fk: "read_fuel_pairs (kv # kvs) \<le> n'"
    by (cases n) auto
  from json_value_head [OF b] obtain d r where d: "b = d # r" "value_start d"
    by auto
  from json_pairs_head [OF _ c] obtain r' where r': "c = 34 # r'"
    by auto
  have "read_value n' (b @ 44 # newline_indent level @ c @ newline_indent m @ 125 # rest)
      = Some (v, 44 # newline_indent level @ c @ newline_indent m @ 125 # rest)"
    using "15.IH"(1) [OF b _ _ fv] "15.prems"(3) by simp
  moreover have "read_pairs n' (c @ newline_indent m @ 125 # rest) = Some (kv # kvs, rest)"
    using "15.IH"(2) [OF _ c _ fk] "15.prems"(3) by simp
  moreover have "skip_ws (b @ 44 # newline_indent level @ c @ newline_indent m @ 125 # rest)
      = b @ 44 # newline_indent level @ c @ newline_indent m @ 125 # rest"
    using d by (simp add: skip_ws_start)
  moreover have "skip_ws (c @ newline_indent m @ 125 # rest) = c @ newline_indent m @ 125 # rest"
    using r' by (simp add: skip_ws_start value_start_def)
  ultimately show ?case
    by (simp add: t n encode_basestring_def read_string_body)
qed


subsection \<open>The whole text\<close>

lemma read_fuel_length:
  "json_value codec level v = Inr t \<Longrightarrow> read_fuel v \<le> length t"
  "xs \<noteq> [] \<Longrightarrow> json_items codec level xs = Inr t \<Longrightarrow> read_fuel_items xs \<le> Suc (length t)"
  "kvs \<noteq> [] \<Longrightarrow> json_pairs codec level kvs = Inr t \<Longrightarrow> read_fuel_pairs kvs \<le> Suc (length t)"
proof (induction codec level v and codec level xs and codec level kvs
    arbitrary: t and t and t
    rule: json_value_json_items_json_pairs.induct)
  case (3 codec level i)
  then show ?case
    using show_int_head [of i] by (cases "show_int i") auto
next
  case (4 codec level s)
  then show ?case
    by (auto simp: emit_str_def encode_basestring_def split: if_splits)
next
  case (6 codec level x xs)
  from "6.prems" obtain body where
    b: "json_items codec (Suc level) (x # xs) = Inr body"
    and t: "t = 91 # newline_indent (Suc level) @ body @ newline_indent level @ [93]"
    by (auto simp: ebind_def ustr_def split: sum.splits)
  from "6.IH" [OF _ b] show ?case
    by (simp add: t newline_indent_def)
next
  case (8 codec level kv kvs)
  from "8.prems" obtain body where
    b: "json_pairs codec (Suc level) (kv # kvs) = Inr body"
    and t: "t = 123 # newline_indent (Suc level) @ body @ newline_indent level @ [125]"
    by (auto simp: ebind_def ustr_def split: sum.splits)
  from "8.IH" [OF _ b] show ?case
    by (simp add: t newline_indent_def)
next
  case (11 codec level x)
  then show ?case by simp
next
  case (12 codec level x y ys)
  from "12.prems"(2) obtain a b where
    a: "json_value codec level x = Inr a"
    and b: "json_items codec level (y # ys) = Inr b"
    and t: "t = a @ 44 # newline_indent level @ b"
    by (auto simp: ebind_def ustr_def split: sum.splits)
  from "12.IH"(1) [OF a] "12.IH"(2) [OF _ b] show ?case
    by (simp add: t newline_indent_def)
next
  case (14 codec level k v)
  from "14.prems"(2) obtain a b where
    b: "json_value codec level v = Inr b"
    and t: "t = a @ 58 # 32 # b"
    by (auto simp: ebind_def ustr_def split: sum.splits)
  from "14.IH" [OF b] show ?case
    by (simp add: t)
next
  case (15 codec level k v kv kvs)
  from "15.prems"(2) obtain a b c where
    b: "json_value codec level v = Inr b"
    and c: "json_pairs codec level (kv # kvs) = Inr c"
    and t: "t = a @ 58 # 32 # b @ 44 # newline_indent level @ c"
    by (auto simp: ebind_def ustr_def split: sum.splits)
  from "15.IH"(1) [OF b] "15.IH"(2) [OF _ c] show ?case
    by (simp add: t newline_indent_def)
qed (auto simp: ustr_def)

lemma newline_indent_encodable [simp]: "list_all utf8_encodable (newline_indent l)"
  by (simp add: newline_indent_def list_all_iff utf8_encodable_ascii)

lemma json_escape_char_encodable:
  "utf8_encodable c \<Longrightarrow> list_all utf8_encodable (json_escape_char c)"
  by (simp add: json_escape_char_def hex_digit_def utf8_encodable_ascii)

lemma encode_basestring_encodable:
  "list_all utf8_encodable s \<Longrightarrow> list_all utf8_encodable (encode_basestring s)"
  by (induction s)
    (simp_all add: encode_basestring_def json_escape_char_encodable utf8_encodable_ascii)

lemma show_int_encodable [simp]: "list_all utf8_encodable (show_int i)"
  by (simp add: show_int_def digits_encodable utf8_encodable_ascii)

lemma json_text_encodable:
  "json_value codec level v = Inr t \<Longrightarrow> list_all utf8_encodable t"
  "json_items codec level xs = Inr t \<Longrightarrow> list_all utf8_encodable t"
  "json_pairs codec level kvs = Inr t \<Longrightarrow> list_all utf8_encodable t"
proof (induction codec level v and codec level xs and codec level kvs
    arbitrary: t and t and t
    rule: json_value_json_items_json_pairs.induct)
qed (auto simp: ebind_def emit_str_def encode_basestring_encodable split: sum.splits if_splits)

lemma json_loads_dump:
  assumes "json_value codec 0 v = Inr t" and "distinct_keys v"
  shows "json_loads t = Some v"
proof -
  from json_value_head [OF assms(1)] obtain c r where c: "t = c # r" "value_start c"
    by auto
  then have "skip_ws t = t"
    by (simp add: skip_ws_start)
  moreover have "read_value (length t) (t @ []) = Some (v, [])"
    using assms read_fuel_length(1) [OF assms(1)] by (intro read_back(1)) simp_all
  ultimately show ?thesis
    by (simp add: json_loads_def)
qed

subsection \<open>The written file read back\<close>

lemma dict_set_keys_distinct:
  "distinct (map fst d) \<Longrightarrow> distinct (map fst (dict_set d k v))"
  using dict_keys_set [of d k v] by (auto simp: dict_keys_def)

lemma dict_set_distinct_keys_pairs:
  "distinct_keys_pairs d \<Longrightarrow> distinct_keys v \<Longrightarrow> distinct_keys_pairs (dict_set d k v)"
  by (induction d) auto

lemma summarize_distinct_keys: "distinct_keys (summarize_analytics_request env x)"
  by (simp add: summarize_analytics_request_def split: sum.split option.split)

lemma add_summary_and_metadata_distinct_keys:
  "distinct_keys (PDict rd) \<Longrightarrow> distinct_keys (PDict (add_summary_and_metadata env rd))"
  by (simp add: add_summary_and_metadata_def Let_def dict_set_keys_distinct
      dict_set_distinct_keys_pairs summarize_distinct_keys)

lemma json_escape_char_plain: "0x80 \<le> c \<Longrightarrow> json_escape_char c = [c]"
  by (simp add: json_escape_char_def)

text \<open>
  Claim C2. After a successful call the file named by \<open>file_path\<close> holds the UTF-8
  bytes of the JSON text of the updated record, whatever the file held before, and no
  other file changed; decoding and reading these bytes gives the record back: every
  key of the input, with its value unless the key is \<open>request_summary\<close> or
  \<open>metadata\<close>, the summary under \<open>request_summary\<close>, and under \<open>metadata\<close>
  exactly \<open>created_at\<close>, the reading of the clock in ISO-8601, and \<open>status\<close>, the
  constant \<open>pending_review\<close>. The text is the encoder's, with two spaces of
  indentation for each level, and a code point from U+0080 on is written as it is.
\<close>

theorem save_round_trip:
  assumes "py_get (snd (snd (save_analytics_request env fs rd))) (ustr ''status'')
      = Some (PStr (ustr ''success''))"
    and "distinct_keys (PDict rd)"
  shows "\<exists>bytes jtext doc.
      py_get (snd (snd (save_analytics_request env fs rd))) (ustr ''file_path'')
        = Some (PStr (request_filename (now_filename env)))
    \<and> fst (snd (save_analytics_request env fs rd)) (request_filename (now_filename env))
        = Some (Complete bytes)
    \<and> (\<forall>p. p \<noteq> request_filename (now_filename env) \<longrightarrow>
          fst (snd (save_analytics_request env fs rd)) p = fs p)
    \<and> doc = fst (save_analytics_request env fs rd)
    \<and> json_value (codec_message env) 0 (PDict doc) = Inr jtext
    \<and> bytes = utf8_encode jtext
    \<and> utf8_decode bytes = Some jtext
    \<and> json_loads jtext = Some (PDict doc)
    \<and> set (dict_keys doc) = set (dict_keys rd) \<union> {ustr ''request_summary'', ustr ''metadata''}
    \<and> (\<forall>k. k \<noteq> ustr ''request_summary'' \<and> k \<noteq> ustr ''metadata'' \<longrightarrow>
          dict_get doc k = dict_get rd k)
    \<and> dict_get doc (ustr ''request_summary'')
        = Some (summarize_analytics_request env (PDict rd))
    \<and> dict_get doc (ustr ''metadata'')
        = Some (PDict [(ustr ''created_at'', PStr (isoformat (now_created env))),
                       (ustr ''status'', PStr (ustr ''pending_review''))])
    \<and> (valid_datetime (now_created env) \<longrightarrow>
          parse_iso8601 (isoformat (now_created env)) = Some (now_created env))
    \<and> (\<forall>c. 0x80 \<le> c \<longrightarrow> json_escape_char c = [c])"
proof -
  let ?doc = "add_summary_and_metadata env rd"
  let ?fn = "request_filename (now_filename env)"
  from save_success_cases [OF assms(1)] obtain jtext r where
    j: "json_value (codec_message env) 0 (PDict ?doc) = Inr jtext"
    and r: "save_success env ?fn ?doc = Inr r"
    and s: "save_analytics_request env fs rd
        = (?doc, fs(?fn \<mapsto> Complete (utf8_encode jtext)), r)"
    by blast
  from r have p: "py_get r (ustr ''file_path'') = Some (PStr ?fn)"
    by (auto simp: save_success_def ebind_def dict_get_def split: sum.splits)
  have d: "utf8_decode (utf8_encode jtext) = Some jtext"
    using json_text_encodable(1) [OF j] by (rule utf8_decode_encode)
  have l: "json_loads jtext = Some (PDict ?doc)"
    using j add_summary_and_metadata_distinct_keys [OF assms(2)] by (rule json_loads_dump)
  show ?thesis
    apply (rule exI [of _ "utf8_encode jtext"])
    apply (rule exI [of _ jtext])
    apply (rule exI [of _ ?doc])
    using j p d l
    by (simp add: s add_summary_and_metadata_get add_summary_and_metadata_keys
        parse_isoformat json_escape_char_plain)
qed


theorem save_round_trip_witness:
  "fst (snd (save_analytics_request env_service_up Map.empty request_unicode))
      (ustr ''analytics_request_20240506_070809.json'')
     = Some (Complete (utf8_encode example_text))
   \<and> utf8_decode (utf8_encode example_text) = Some example_text
   \<and> json_loads example_text =
       Some (PDict [
         (ustr ''basic_info'', PDict [(ustr ''name'', PStr (ustr ''Zo'' @ [0xEB]))]),
         (ustr ''request_summary'', PStr (ustr ''A sales report.'')),
         (ustr ''metadata'',
          PDict [(ustr ''created_at'', PStr (ustr ''2024-05-06T07:08:09.000123'')),
                 (ustr ''status'', PStr (ustr ''pending_review''))])])"
proof -
  let ?doc = "[
         (ustr ''basic_info'', PDict [(ustr ''name'', PStr (ustr ''Zo'' @ [0xEB]))]),
         (ustr ''request_summary'', PStr (ustr ''A sales report.'')),
         (ustr ''metadata'',
          PDict [(ustr ''created_at'', PStr (ustr ''2024-05-06T07:08:09.000123'')),
                 (ustr ''status'', PStr (ustr ''pending_review''))])]"
  have u: "add_summary_and_metadata env_service_up request_unicode = ?doc"
    by (simp add: add_summary_and_metadata_def summarize_analytics_request_def Let_def
        env_service_up_def request_unicode_def isoformat_clock_example)
  have e: "list_all utf8_encodable (ustr ''Zo'' @ [0xEB])"
    by (simp add: utf8_encodable_def)
  have j: "json_value (\<lambda>s. []) 0 (PDict ?doc) = Inr example_text"
    using e
    by (simp add: ebind_def emit_str_def encode_basestring_def newline_indent_def
        json_escape_char_def example_text_def ustr_def utf8_encodable_def
        replicate_numeral_unfold)
  have ok: "py_get (snd (snd (save_analytics_request env_service_up Map.empty request_unicode)))
      (ustr ''status'') = Some (PStr (ustr ''success''))"
  proof (rule save_succeeds)
    show "json_serializable (PDict (add_summary_and_metadata env_service_up request_unicode))"
      using e by (simp add: u)
  qed (simp_all add: env_service_up_def request_unicode_def dict_get_def)
  have d: "distinct_keys (PDict request_unicode)"
    by (simp add: request_unicode_def)
  have f: "request_filename (now_filename env_service_up)
      = ustr ''analytics_request_20240506_070809.json''"
    by (simp add: env_service_up_def request_filename_example)
  have r: "fst (save_analytics_request env_service_up Map.empty request_unicode) = ?doc"
    using u by (simp add: save_analytics_request_cases Let_def split: option.split sum.split)
  have m: "codec_message env_service_up = (\<lambda>s. [])"
    by (simp add: env_service_up_def)
  from save_round_trip [OF ok d] obtain bytes jtext doc where
    "fst (snd (save_analytics_request env_service_up Map.empty request_unicode))
        (request_filename (now_filename env_service_up)) = Some (Complete bytes)"
    "doc = fst (save_analytics_request env_service_up Map.empty request_unicode)"
    "json_value (codec_message env_service_up) 0 (PDict doc) = Inr jtext"
    "bytes = utf8_encode jtext" "utf8_decode bytes = Some jtext"
    "json_loads jtext = Some (PDict doc)"
    by blast
  with j show ?thesis
    by (simp add: f r m)
qed

end
